theory Spec2Isabelle
  imports Main
begin

section \<open>Python strings\<close>

text \<open>
  A Python \<open>str\<close> is modelled in two ways. Where the code only stores, compares,
  concatenates or searches a string for ASCII text (ids, cities, dates, keys, tokens),
  it is a \<open>string\<close>: its UTF-8 bytes. Where the code applies methods that consult the
  Unicode database (\<open>upper\<close>, \<open>strip\<close>, \<open>split\<close> on sex values and names), it is the list of
  its code points, and an ASCII literal of the source is written \<open>codes ''...''\<close>.
\<close>

definition codes :: "string \<Rightarrow> nat list" where
  "codes s = map of_char s"

text \<open>
  \<open>str.isspace\<close> on one character, which is also what \<open>str.strip()\<close> and \<open>str.split()\<close>
  take for whitespace: the control characters 9 to 13 and 28 to 31, the space, U+0085,
  U+00A0, U+1680, U+2000 to U+200A, U+2028, U+2029, U+202F, U+205F and U+3000.
\<close>

definition py_isspace :: "nat \<Rightarrow> bool" where
  "py_isspace c =
     (c \<in> set [9, 10, 11, 12, 13, 28, 29, 30, 31, 32, 133, 160, 5760,
               8192, 8193, 8194, 8195, 8196, 8197, 8198, 8199, 8200, 8201, 8202,
               8232, 8233, 8239, 8287, 12288])"

text \<open>
  \<open>str.upper\<close> maps each character on its own to one or more characters (the full case
  mapping of the Unicode database). That mapping is the parameter \<open>toupper\<close> of every
  function that calls \<open>upper\<close>.
\<close>

definition py_upper :: "(nat \<Rightarrow> nat list) \<Rightarrow> nat list \<Rightarrow> nat list" where
  "py_upper toupper s = concat (map toupper s)"

definition py_strip :: "nat list \<Rightarrow> nat list" where
  "py_strip s = rev (dropWhile py_isspace (rev (dropWhile py_isspace s)))"

text \<open>
  What the proofs use of the case mapping: on ASCII it turns \<open>a\<close>..\<open>z\<close> into \<open>A\<close>..\<open>Z\<close> and
  leaves the rest alone; a whitespace character has no upper-case form of its own; the
  upper-case form of any other character is not empty and holds no whitespace.
\<close>

definition unicode_upper :: "(nat \<Rightarrow> nat list) \<Rightarrow> bool" where
  "unicode_upper toupper =
     ((\<forall>c < 128. toupper c = [if 97 \<le> c \<and> c \<le> 122 then c - 32 else c])
      \<and> (\<forall>c. py_isspace c \<longrightarrow> toupper c = [c])
      \<and> (\<forall>c. \<not> py_isspace c \<longrightarrow> toupper c \<noteq> [] \<and> (\<forall>x \<in> set (toupper c). \<not> py_isspace x)))"

text \<open>Truthiness of an optional string: \<open>None\<close> and the empty string are falsy.\<close>

definition truthy :: "'a list option \<Rightarrow> bool" where
  "truthy v = (case v of None \<Rightarrow> False | Some s \<Rightarrow> s \<noteq> [])"

section \<open>Notification helper functions\<close>

text \<open>
  \<open>normalize_sex\<close> (server.py, line 161). The argument may be \<open>None\<close> (a user without a
  sex), so the model takes an optional string; the early \<open>return None\<close> is the value \<open>None\<close>.
\<close>

definition normalize_sex :: "(nat \<Rightarrow> nat list) \<Rightarrow> nat list option \<Rightarrow> nat list option" where
  "normalize_sex toupper sex_value =
     (if \<not> truthy sex_value then None
      else let sex_upper = py_strip (py_upper toupper (the sex_value)) in
        if sex_upper \<in> set [codes ''M'', codes ''MALE''] then Some (codes ''M'')
        else if sex_upper \<in> set [codes ''F'', codes ''FEMALE''] then Some (codes ''F'')
        else if sex_upper \<in> set [codes ''X'', codes ''PREFER NOT TO SAY'', codes ''N/A'',
                                  codes ''OTHER''] then Some (codes ''X'')
        else sex_value)"

text \<open>
  \<open>normalize_sex_list\<close> (line 176): the comprehension keeps the normal forms that are
  truthy.
\<close>

definition normalize_sex_list :: "(nat \<Rightarrow> nat list) \<Rightarrow> nat list list \<Rightarrow> nat list list" where
  "normalize_sex_list toupper sex_list =
     (if sex_list = [] then []
      else map (\<lambda>s. the (normalize_sex toupper (Some s)))
             (filter (\<lambda>s. truthy (normalize_sex toupper (Some s))) sex_list))"

section \<open>Age bands\<close>

text \<open>
  The body of the loop over \<open>walk_age_groups\<close> in \<open>notify_previous_participants\<close> (lines
  261 to 274; the same chain is in \<open>get_walks\<close>, lines 2112 to 2125): whether one listed
  band sets \<open>age_match\<close> for the user's age.
\<close>

definition age_group_matches :: "string \<Rightarrow> int \<Rightarrow> bool" where
  "age_group_matches age_group user_age =
     (if age_group = ''18-24'' \<and> 18 \<le> user_age \<and> user_age \<le> 24 then True
      else if age_group = ''25-34'' \<and> 25 \<le> user_age \<and> user_age \<le> 34 then True
      else if age_group = ''35-44'' \<and> 35 \<le> user_age \<and> user_age \<le> 44 then True
      else if age_group = ''45-54'' \<and> 45 \<le> user_age \<and> user_age \<le> 54 then True
      else if age_group = ''55-64'' \<and> 55 \<le> user_age \<and> user_age \<le> 64 then True
      else if age_group = ''65-74'' \<and> 65 \<le> user_age \<and> user_age \<le> 74 then True
      else if age_group = ''75+'' \<and> user_age \<ge> 75 then True
      else False)"

text \<open>The loop itself: \<open>age_match\<close> starts \<open>False\<close> and is only ever set to \<open>True\<close>.\<close>

fun age_match_loop :: "string list \<Rightarrow> int \<Rightarrow> bool \<Rightarrow> bool" where
  "age_match_loop [] user_age age_match = age_match"
| "age_match_loop (age_group # rest) user_age age_match =
     age_match_loop rest user_age
       (if age_group_matches age_group user_age then True else age_match)"

text \<open>The seven bands named in the comments of the source.\<close>

definition age_bands :: "string list" where
  "age_bands = [''18-24'', ''25-34'', ''35-44'', ''45-54'', ''55-64'', ''65-74'', ''75+'']"

text \<open>
  The classification of \<open>get_admin_statistics\<close> (lines 3447 to 3464). \<open>if age:\<close> is false
  for a missing age and for the age 0.
\<close>

definition stats_age_group :: "int option \<Rightarrow> string" where
  "stats_age_group age =
     (case age of
        None \<Rightarrow> ''Unknown''
      | Some a \<Rightarrow>
          if a = 0 then ''Unknown''
          else if a < 25 then ''18-24''
          else if a < 35 then ''25-34''
          else if a < 45 then ''35-44''
          else if a < 55 then ''45-54''
          else if a < 65 then ''55-64''
          else if a < 75 then ''65-74''
          else ''75+'')"

section \<open>Documents and collections\<close>

text \<open>
  The document store is a record of collections, each a list of documents in storage
  order. A field that a document may lack is an option (\<open>None\<close> is the missing field).
  Instants are integer microseconds on the UTC time line; \<open>timedelta(days=n)\<close> is
  \<open>n * DAY\<close>.
\<close>

definition DAY :: int where
  "DAY = 86400000000"

record user =
  user_id :: string
  email :: string
  name :: "nat list option"
  pseudonym :: "nat list option"
  age :: "int option"
  sex :: "nat list option"
  city :: "string option"
  neighborhood :: "string option"
  notifications_enabled :: "bool option"
  email_notifications :: "bool option"
  status :: "string option"
  lastLoginAt :: "int option"

record walk_conditions =
  cond_sex :: "nat list list"
  age_groups :: "string list"

record walk =
  walk_id :: string
  title :: string
  date :: string
  walk_city :: string
  walk_neighborhood :: string
  max_participants :: int
  conditions :: "walk_conditions option"
  organizer_id :: string

record booking =
  booking_id :: string
  b_walk_id :: string
  b_user_id :: string
  user_name :: "nat list"
  user_email :: string
  booked_at :: int
  b_status :: string

record push_token_doc =
  t_user_id :: string
  push_token :: "string option"
  active :: bool

record reminder_doc =
  key :: string
  r_walk_id :: string
  r_sent_at :: int

record retention_doc =
  n_user_id :: string
  n_sent_at :: int

text \<open>
  A stored \<open>datetime\<close>: its wall-clock reading and, when it is timezone aware, its offset
  from UTC. \<open>replace(tzinfo=timezone.utc)\<close> on a naive value reads the wall clock as UTC.
\<close>

record datetime =
  wall :: int
  utcoffset :: "int option"

record session_doc =
  session_token :: string
  s_user_id :: string
  expires_at :: datetime

record db =
  users :: "user list"
  walks :: "walk list"
  bookings :: "booking list"
  push_tokens :: "push_token_doc list"
  reminders_sent :: "reminder_doc list"
  retention_notifications :: "retention_doc list"
  user_sessions :: "session_doc list"

text \<open>
  What a request handler raises: an \<open>HTTPException\<close> with its status code and detail, or
  the \<open>ValidationError\<close> of the \<open>User\<close> model, which no handler catches (the framework
  answers it with HTTP 500).
\<close>

datatype raised = HTTPException nat string | ValidationError

section \<open>The targeting engine: \<open>notify_previous_participants\<close>\<close>

text \<open>
  \<open>send_email_notification\<close> (line 182). Its result says whether an email went out. The
  subject and the body only reach the log, which the model does not keep; the two
  configuration values are parameters.
\<close>

definition send_email_notification :: "string option \<Rightarrow> string option \<Rightarrow> string \<Rightarrow> bool" where
  "send_email_notification SENDGRID_API_KEY SENDGRID_FROM_EMAIL email_to =
     (if \<not> truthy SENDGRID_API_KEY \<or> \<not> truthy SENDGRID_FROM_EMAIL then False
      else False)"

text \<open>The loop of lines 211 to 218 that builds \<open>sex_match_values\<close>.\<close>

fun sex_match_loop :: "nat list list \<Rightarrow> nat list list \<Rightarrow> nat list list" where
  "sex_match_loop [] sex_match_values = sex_match_values"
| "sex_match_loop (s # rest) sex_match_values =
     sex_match_loop rest
       (if s = codes ''M'' then sex_match_values @ [codes ''M'', codes ''Male'']
        else if s = codes ''F'' then sex_match_values @ [codes ''F'', codes ''Female'']
        else if s = codes ''X''
        then sex_match_values @ [codes ''X'', codes ''Prefer not to say'', codes ''N/A'',
                                 codes ''Other'']
        else sex_match_values)"

text \<open>
  \<open>base_query\<close> (lines 228 to 236) as a predicate on a user document: equality on
  \<open>notifications_enabled\<close> and \<open>city\<close>, \<open>$ne\<close> on \<open>user_id\<close>, and \<open>$in\<close> on \<open>sex\<close> when
  \<open>sex_match_values\<close> is not empty.
\<close>

definition base_query :: "string \<Rightarrow> string \<Rightarrow> nat list list \<Rightarrow> user \<Rightarrow> bool" where
  "base_query city_of_walk walk_organizer_id sex_match_values u =
     (notifications_enabled u = Some True
      \<and> city u = Some city_of_walk
      \<and> user_id u \<noteq> walk_organizer_id
      \<and> (sex_match_values = []
         \<or> (case sex u of None \<Rightarrow> False | Some s \<Rightarrow> s \<in> set sex_match_values)))"

text \<open>The loop of lines 251 to 280 over \<open>potential_users\<close>.\<close>

fun age_filter_loop :: "string list \<Rightarrow> user list \<Rightarrow> user list \<Rightarrow> user list" where
  "age_filter_loop walk_age_groups [] selected = selected"
| "age_filter_loop walk_age_groups (u # rest) selected =
     (case age u of
        None \<Rightarrow> age_filter_loop walk_age_groups rest selected
      | Some user_age \<Rightarrow>
          if age_match_loop walk_age_groups user_age False
          then age_filter_loop walk_age_groups rest (selected @ [u])
          else age_filter_loop walk_age_groups rest selected)"

text \<open>
  The list \<open>users\<close> that \<open>notify_previous_participants\<close> computes (lines 201 to 282).
  A walk without conditions has the empty condition lists, and so has a condition list
  that is missing or null; the query result is cut at 10000 documents by
  \<open>to_list(10000)\<close>.
\<close>

definition notify_users :: "(nat \<Rightarrow> nat list) \<Rightarrow> walk \<Rightarrow> user list \<Rightarrow> user list" where
  "notify_users toupper walk all_users =
     (let walk_conditions =
            (case conditions walk of None \<Rightarrow> \<lparr>cond_sex = [], age_groups = []\<rparr> | Some c \<Rightarrow> c);
          walk_sex_list = cond_sex walk_conditions;
          walk_age_groups = age_groups walk_conditions;
          walk_sex_normalized = normalize_sex_list toupper walk_sex_list;
          sex_match_values = sex_match_loop walk_sex_normalized [];
          potential_users =
            take 10000
              (filter (base_query (walk_city walk) (organizer_id walk) sex_match_values) all_users)
      in if walk_age_groups \<noteq> [] then age_filter_loop walk_age_groups potential_users []
         else potential_users)"

text \<open>
  What the function does with \<open>users\<close> (lines 284 to 336): nothing when the list is empty;
  otherwise one call of \<open>send_push_to_users\<close> with the selected user ids, then one call of
  \<open>send_email_notification\<close> for each selected user whose \<open>email_notifications\<close> is not
  off (a missing field counts as on). The result keeps the addressees of the push and,
  for each email call, the address and what the call returned.
\<close>

record notification_effects =
  push_user_ids :: "string list"
  email_calls :: "(string \<times> bool) list"

definition notify_previous_participants ::
  "(nat \<Rightarrow> nat list) \<Rightarrow> string option \<Rightarrow> string option \<Rightarrow> walk \<Rightarrow> db
     \<Rightarrow> notification_effects option" where
  "notify_previous_participants toupper SENDGRID_API_KEY SENDGRID_FROM_EMAIL walk d =
     (let selected = notify_users toupper walk (users d) in
      if selected = [] then None
      else Some \<lparr>push_user_ids = map user_id selected,
                 email_calls =
                   map (\<lambda>u. (email u,
                              send_email_notification SENDGRID_API_KEY SENDGRID_FROM_EMAIL (email u)))
                     (filter (\<lambda>u. email_notifications u \<noteq> Some False) selected)\<rparr>)"

text \<open>
  The sex filter of the sibling \<open>get_walks\<close> (lines 2092 to 2100), which decides whether
  a walk is shown to the current user: when the walk lists sex conditions, the user's
  normalized sex must be among the walk's normalized conditions.
\<close>

definition get_walks_sex_filter :: "(nat \<Rightarrow> nat list) \<Rightarrow> walk \<Rightarrow> user \<Rightarrow> bool" where
  "get_walks_sex_filter toupper walk current_user =
     (case conditions walk of
        None \<Rightarrow> True
      | Some c \<Rightarrow>
          if cond_sex c \<noteq> [] then
            (let walk_sex_normalized = normalize_sex_list toupper (cond_sex c);
                 user_sex_normalized = normalize_sex toupper (sex current_user)
             in user_sex_normalized \<in> Some ` set walk_sex_normalized)
          else True)"

section \<open>The 24-hour reminder job\<close>

text \<open>
  \<open>send_walk_reminder\<close> (line 344). The result is the list of user ids handed to
  \<open>send_push_to_users\<close>, or \<open>None\<close> when the function returns before pushing (no such
  walk, or no active booking). \<open>list(set(...))\<close> keeps one copy of each id; its order is
  not fixed by Python, the model keeps one occurrence of each in list order. The email
  reminders that follow the push go through \<open>send_email_notification\<close> and are not kept.
\<close>

definition send_walk_reminder :: "db \<Rightarrow> string \<Rightarrow> string list option" where
  "send_walk_reminder d wid =
     (case find (\<lambda>w. walk_id w = wid) (walks d) of
        None \<Rightarrow> None
      | Some walk \<Rightarrow>
          let found = take 1000
                (filter (\<lambda>b. b_walk_id b = wid \<and> b_status b = ''active'') (bookings d))
          in if found = [] then None else Some (remdups (map b_user_id found)))"

definition reminder_key :: "string \<Rightarrow> string \<Rightarrow> string" where
  "reminder_key wid tomorrow_date = ''reminder_sent_'' @ wid @ ''_'' @ tomorrow_date"

text \<open>
  The loop of \<open>check_and_send_24h_reminders\<close> (lines 443 to 462). \<open>clock k\<close> is what
  \<open>datetime.now\<close> returns when the \<open>k\<close>-th walk of the list is marked. The log collects,
  for each call of \<open>send_walk_reminder\<close>, the walk id and the result of the call.
\<close>

fun reminder_loop ::
  "string \<Rightarrow> (nat \<Rightarrow> int) \<Rightarrow> nat \<Rightarrow> walk list \<Rightarrow> db \<Rightarrow> (string \<times> string list option) list
     \<Rightarrow> db \<times> (string \<times> string list option) list" where
  "reminder_loop tomorrow_date clock k [] d sent = (d, sent)"
| "reminder_loop tomorrow_date clock k (walk # rest) d sent =
     (let rkey = reminder_key (walk_id walk) tomorrow_date;
          existing_reminder = find (\<lambda>r. key r = rkey) (reminders_sent d)
      in case existing_reminder of
           Some r \<Rightarrow> reminder_loop tomorrow_date clock (Suc k) rest d sent
         | None \<Rightarrow>
             reminder_loop tomorrow_date clock (Suc k) rest
               (d\<lparr>reminders_sent := reminders_sent d @
                    [\<lparr>key = rkey, r_walk_id = walk_id walk, r_sent_at = clock k\<rparr>]\<rparr>)
               (sent @ [(walk_id walk, send_walk_reminder d (walk_id walk))]))"

text \<open>
  The job (line 421). \<open>now\<close> is the reading of the clock at its start. \<open>strftime\<close> with
  \<open>%Y-%m-%d\<close> depends only on the calendar day of a UTC instant, so the model takes the
  formatting of a day number (days since the epoch) as the parameter \<open>ymd\<close>.
\<close>

definition check_and_send_24h_reminders ::
  "(int \<Rightarrow> string) \<Rightarrow> (nat \<Rightarrow> int) \<Rightarrow> int \<Rightarrow> db \<Rightarrow> db \<times> (string \<times> string list option) list" where
  "check_and_send_24h_reminders ymd clock now d =
     (let tomorrow = now + 1 * DAY;
          tomorrow_date = ymd (tomorrow div DAY);
          found = take 1000 (filter (\<lambda>w. date w = tomorrow_date) (walks d))
      in if found = [] then (d, [])
         else reminder_loop tomorrow_date clock 0 found d [])"

section \<open>The retention job\<close>

text \<open>What \<open>push_client.publish\<close> does with a message: it returns, or raises.\<close>

datatype publish_result = Delivered | DeviceNotRegisteredError | PushServerError | OtherError

text \<open>
  The surroundings of one call of \<open>send_retention_notification\<close>: the clock reading used
  for the three-day check, the later reading stamped on the stored record, and the answer
  of the push gateway.
\<close>

record call_env =
  check_time :: int
  sent_time :: int
  gateway :: publish_result

fun delete_one :: "('a \<Rightarrow> bool) \<Rightarrow> 'a list \<Rightarrow> 'a list" where
  "delete_one P [] = []"
| "delete_one P (x # xs) = (if P x then xs else x # delete_one P xs)"

text \<open>
  \<open>send_retention_notification\<close> (line 558). The second component is \<open>None\<close> when no
  message was published and otherwise the gateway's answer; the function returns \<open>True\<close>
  exactly for \<open>Some Delivered\<close>. The title and the body of the message are not modelled,
  except that \<open>split()[0]\<close> raises on a name made of whitespace only, which the outer
  handler turns into \<open>False\<close> before anything is published.
\<close>

definition send_retention_notification ::
  "call_env \<Rightarrow> user \<Rightarrow> db \<Rightarrow> db \<times> publish_result option" where
  "send_retention_notification env u d =
     (let push_token_doc = find (\<lambda>t. t_user_id t = user_id u) (push_tokens d) in
      if push_token_doc = None \<or> \<not> truthy (push_token (the push_token_doc)) then (d, None)
      else
        let existing = find (\<lambda>n. n_user_id n = user_id u \<and> n_sent_at n \<ge> check_time env - 3 * DAY)
                         (retention_notifications d) in
        if existing \<noteq> None then (d, None)
        else if truthy (name u) \<and> list_all py_isspace (the (name u)) then (d, None)
        else
          (case gateway env of
             Delivered \<Rightarrow>
               (d\<lparr>retention_notifications := retention_notifications d @
                    [\<lparr>n_user_id = user_id u, n_sent_at = sent_time env\<rparr>]\<rparr>,
                Some Delivered)
           | DeviceNotRegisteredError \<Rightarrow>
               (d\<lparr>push_tokens := delete_one (\<lambda>t. t_user_id t = user_id u) (push_tokens d)\<rparr>,
                Some DeviceNotRegisteredError)
           | PushServerError \<Rightarrow> (d, Some PushServerError)
           | OtherError \<Rightarrow> (d, Some OtherError)))"

text \<open>The query of lines 665 to 671 as a predicate on a user document.\<close>

definition inactive_query :: "int \<Rightarrow> user \<Rightarrow> bool" where
  "inactive_query three_days_ago u =
     (((case lastLoginAt u of Some t \<Rightarrow> t < three_days_ago | None \<Rightarrow> False)
        \<or> lastLoginAt u = None)
      \<and> notifications_enabled u \<noteq> Some False)"

definition inactive_users :: "int \<Rightarrow> db \<Rightarrow> user list" where
  "inactive_users now d = take 100 (filter (inactive_query (now - 3 * DAY)) (users d))"

text \<open>
  The loop of lines 676 to 682: \<open>env k\<close> surrounds the call for the \<open>k\<close>-th user; the log
  has one entry per user, in order.
\<close>

fun retention_loop ::
  "(nat \<Rightarrow> call_env) \<Rightarrow> nat \<Rightarrow> user list \<Rightarrow> db \<Rightarrow> db \<times> publish_result option list" where
  "retention_loop env k [] d = (d, [])"
| "retention_loop env k (u # rest) d =
     (let (d1, r) = send_retention_notification (env k) u d;
          (d2, rs) = retention_loop env (Suc k) rest d1
      in (d2, r # rs))"

definition check_and_send_retention_notifications ::
  "(nat \<Rightarrow> call_env) \<Rightarrow> int \<Rightarrow> db \<Rightarrow> db \<times> publish_result option list" where
  "check_and_send_retention_notifications env now d =
     retention_loop env 0 (inactive_users now d) d"

section \<open>Authentication\<close>

record request =
  cookies :: "string \<Rightarrow> string option"
  headers :: "string \<Rightarrow> string option"

definition startswith :: "string \<Rightarrow> string \<Rightarrow> bool" where
  "startswith s p = (take (length p) s = p)"

text \<open>\<open>s.replace(old, "")\<close> for a non-empty \<open>old\<close>: every occurrence, left to right.\<close>

function remove_all :: "string \<Rightarrow> string \<Rightarrow> string" where
  "remove_all old s =
     (if s = [] \<or> old = [] then s
      else if startswith s old then remove_all old (drop (length old) s)
      else hd s # remove_all old (tl s))"
  by pat_completeness auto
termination
  by (relation "measure (\<lambda>(old, s). length s)") (auto simp: neq_Nil_conv)

text \<open>\<open>get_session_token\<close> (line 943): the cookie first, then the Authorization header.\<close>

definition get_session_token :: "request \<Rightarrow> string option" where
  "get_session_token req =
     (let token = cookies req ''session_token'' in
      if truthy token then token
      else
        let auth_header = headers req ''Authorization'' in
        if truthy auth_header \<and> startswith (the auth_header) ''Bearer ''
        then Some (remove_all ''Bearer '' (the auth_header))
        else None)"

definition utc_instant :: "datetime \<Rightarrow> int" where
  "utc_instant t = (case utcoffset t of None \<Rightarrow> wall t | Some off \<Rightarrow> wall t - off)"

text \<open>
  \<open>get_current_user\<close> (line 957); \<open>now\<close> is \<open>datetime.now(timezone.utc)\<close>. The last line,
  \<open>User(**user_doc)\<close>, validates the stored document against the \<open>User\<close> model and raises
  \<open>ValidationError\<close> when it does not fit (a document without a name, for one: the model
  requires \<open>user_id\<close>, \<open>email\<close>, \<open>name\<close> and \<open>created_at\<close>). The record of a document does
  not keep every field the model looks at, so the verdict of the validation is the
  parameter \<open>User_accepts\<close>.
\<close>

definition get_current_user ::
  "(user \<Rightarrow> bool) \<Rightarrow> int \<Rightarrow> db \<Rightarrow> request \<Rightarrow> raised + user" where
  "get_current_user User_accepts now d req =
     (let token = get_session_token req in
      if \<not> truthy token then Inl (HTTPException 401 ''Not authenticated'')
      else
        case find (\<lambda>s. session_token s = the token) (user_sessions d) of
          None \<Rightarrow> Inl (HTTPException 401 ''Invalid session'')
        | Some session \<Rightarrow>
            if utc_instant (expires_at session) < now
            then Inl (HTTPException 401 ''Session expired'')
            else
              case find (\<lambda>u. user_id u = s_user_id session) (users d) of
                None \<Rightarrow> Inl (HTTPException 404 ''User not found'')
              | Some user_doc \<Rightarrow>
                  let user_status = (case status user_doc of None \<Rightarrow> ''active'' | Some st \<Rightarrow> st) in
                  if user_status = ''blocked''
                  then Inl (HTTPException 403
                         ''Your account has been blocked. Please contact support.'')
                  else if user_status = ''suspended''
                  then Inl (HTTPException 403
                         ''Your account has been temporarily suspended. Please contact support.'')
                  else if User_accepts user_doc then Inr user_doc
                  else Inl ValidationError)"

section \<open>Bookings\<close>

definition HARD_LIMIT :: nat where
  "HARD_LIMIT = 10"

text \<open>\<open>count_documents\<close> of the active bookings of a walk.\<close>

definition current_participants :: "db \<Rightarrow> string \<Rightarrow> nat" where
  "current_participants d wid =
     length (filter (\<lambda>b. b_walk_id b = wid \<and> b_status b = ''active'') (bookings d))"

text \<open>
  \<open>create_booking\<close> (line 2409) is a coroutine: it awaits the store four times (lines
  2416, 2422, 2431 and 2450), and between two awaits the event loop may run other
  requests. A request in flight is its arguments (the fresh booking id from \<open>uuid4\<close>, the
  clock reading, the walk id, the current user) and the await it has reached.
\<close>

datatype booking_phase =
  FindWalk | CountParticipants | FindExisting | InsertBooking | Finished "raised + booking"

record booking_request =
  req_booking_id :: string
  req_now :: int
  req_walk_id :: string
  req_user :: user
  phase :: booking_phase

text \<open>The booking document that the handler builds (lines 2439 to 2448).\<close>

definition new_booking :: "booking_request \<Rightarrow> booking" where
  "new_booking r =
     \<lparr>booking_id = req_booking_id r, b_walk_id = req_walk_id r,
      b_user_id = user_id (req_user r),
      user_name = (if truthy (pseudonym (req_user r)) then the (pseudonym (req_user r))
                   else (case name (req_user r) of Some n \<Rightarrow> n | None \<Rightarrow> [])),
      user_email = email (req_user r),
      booked_at = req_now r, b_status = ''active''\<rparr>"

text \<open>One await of a request: the store operation and the code up to the next await.\<close>

definition booking_step :: "db \<Rightarrow> booking_request \<Rightarrow> db \<times> booking_request" where
  "booking_step d r =
     (case phase r of
        FindWalk \<Rightarrow>
          (case find (\<lambda>w. walk_id w = req_walk_id r) (walks d) of
             None \<Rightarrow> (d, r\<lparr>phase := Finished (Inl (HTTPException 404 ''Walk not found''))\<rparr>)
           | Some walk \<Rightarrow> (d, r\<lparr>phase := CountParticipants\<rparr>))
      | CountParticipants \<Rightarrow>
          if current_participants d (req_walk_id r) \<ge> HARD_LIMIT
          then (d, r\<lparr>phase := Finished (Inl (HTTPException 400
                  ''This walk has reached the maximum limit of 10 participants''))\<rparr>)
          else (d, r\<lparr>phase := FindExisting\<rparr>)
      | FindExisting \<Rightarrow>
          (case find (\<lambda>b. b_walk_id b = req_walk_id r \<and> b_user_id b = user_id (req_user r)
                           \<and> b_status b = ''active'') (bookings d) of
             Some existing \<Rightarrow>
               (d, r\<lparr>phase := Finished (Inl (HTTPException 400 ''Already booked this walk''))\<rparr>)
           | None \<Rightarrow> (d, r\<lparr>phase := InsertBooking\<rparr>))
      | InsertBooking \<Rightarrow>
          (d\<lparr>bookings := bookings d @ [new_booking r]\<rparr>,
           r\<lparr>phase := Finished (Inr (new_booking r))\<rparr>)
      | Finished result \<Rightarrow> (d, r))"

text \<open>
  The event loop serving several requests: the schedule names, step by step, the request
  that runs up to its next await. Any schedule is possible; nothing in the handler or in
  the store (no lock, no unique index on walk and user) restricts it.
\<close>

fun serve :: "db \<Rightarrow> booking_request list \<Rightarrow> nat list \<Rightarrow> db \<times> booking_request list" where
  "serve d rs [] = (d, rs)"
| "serve d rs (i # schedule) =
     (if i < length rs
      then serve (fst (booking_step d (rs ! i))) (rs[i := snd (booking_step d (rs ! i))]) schedule
      else serve d rs schedule)"

text \<open>
  The handler run from its first line to its return with no other request in between: the
  body of \<open>create_booking\<close> as the source writes it.
\<close>

definition create_booking ::
  "db \<Rightarrow> string \<Rightarrow> int \<Rightarrow> string \<Rightarrow> user \<Rightarrow> (raised + booking) \<times> db" where
  "create_booking d new_id now wid current_user =
     (case find (\<lambda>w. walk_id w = wid) (walks d) of
        None \<Rightarrow> (Inl (HTTPException 404 ''Walk not found''), d)
      | Some walk \<Rightarrow>
          if current_participants d wid \<ge> HARD_LIMIT
          then (Inl (HTTPException 400
                  ''This walk has reached the maximum limit of 10 participants''), d)
          else
            (case find (\<lambda>b. b_walk_id b = wid \<and> b_user_id b = user_id current_user
                             \<and> b_status b = ''active'') (bookings d) of
              Some existing \<Rightarrow> (Inl (HTTPException 400 ''Already booked this walk''), d)
            | None \<Rightarrow>
                let b = \<lparr>booking_id = new_id, b_walk_id = wid,
                         b_user_id = user_id current_user,
                         user_name = (if truthy (pseudonym current_user)
                                      then the (pseudonym current_user)
                                      else (case name current_user of Some n \<Rightarrow> n | None \<Rightarrow> [])),
                         user_email = email current_user,
                         booked_at = now, b_status = ''active''\<rparr>
                in (Inr b, d\<lparr>bookings := bookings d @ [b]\<rparr>)))"

section \<open>Notions of the specification\<close>

text \<open>
  A string is a word "in any letter case, ignoring surrounding whitespace" when it is
  whitespace, then a string with the word's upper-case form, then whitespace.
\<close>

definition written_as :: "(nat \<Rightarrow> nat list) \<Rightarrow> nat list \<Rightarrow> string \<Rightarrow> bool" where
  "written_as toupper s word =
     (\<exists>l t r. s = l @ t @ r \<and> list_all py_isspace l \<and> list_all py_isspace r
              \<and> py_upper toupper t = py_upper toupper (codes word))"

text \<open>The eight words that \<open>normalize_sex\<close> recognises, as the specification spells them.\<close>

definition sex_words :: "string list" where
  "sex_words = [''M'', ''Male'', ''F'', ''Female'', ''X'', ''Prefer not to say'', ''N/A'', ''Other'']"

text \<open>
  A walk has a reminder record for a date when some document of \<open>reminders_sent\<close> carries
  the key built from the walk's id and that date.
\<close>

definition has_reminder :: "db \<Rightarrow> string \<Rightarrow> string \<Rightarrow> bool" where
  "has_reminder d wid day = (reminder_key wid day \<in> key ` set (reminders_sent d))"

text \<open>The active bookings of a walk, in storage order.\<close>

definition active_bookings :: "db \<Rightarrow> string \<Rightarrow> booking list" where
  "active_bookings d wid = filter (\<lambda>b. b_walk_id b = wid \<and> b_status b = ''active'') (bookings d)"

text \<open>The addressees of a call of \<open>send_walk_reminder\<close>: nobody when it returned early.\<close>

definition addressees :: "string list option \<Rightarrow> string set" where
  "addressees r = (case r of None \<Rightarrow> {} | Some ids \<Rightarrow> set ids)"

text \<open>
  The outcome of running the reminder loop over the walks \<open>ws\<close> from the store \<open>d\<close> and
  the log \<open>sent\<close>: the records \<open>recs\<close> are appended to \<open>reminders_sent\<close> and nothing
  else changes; \<open>send_walk_reminder\<close> is called once for each id in \<open>ids\<close>, on the store
  as it was; and \<open>ids\<close> are the ids of the walks of \<open>ws\<close> that had no record for \<open>day\<close>.
\<close>

definition loop_outcome ::
  "string \<Rightarrow> walk list \<Rightarrow> db \<Rightarrow> (string \<times> string list option) list
     \<Rightarrow> db \<times> (string \<times> string list option) list \<Rightarrow> string list \<Rightarrow> reminder_doc list \<Rightarrow> bool" where
  "loop_outcome day ws d sent res ids recs =
     (res = (d\<lparr>reminders_sent := reminders_sent d @ recs\<rparr>,
             sent @ map (\<lambda>wid. (wid, send_walk_reminder d wid)) ids)
      \<and> distinct ids
      \<and> set ids = {walk_id w | w. w \<in> set ws \<and> \<not> has_reminder d (walk_id w) day}
      \<and> key ` set recs = (\<lambda>wid. reminder_key wid day) ` set ids)"

text \<open>The day after the current UTC date, formatted: the date the hourly job looks for.\<close>

definition target_day :: "(int \<Rightarrow> string) \<Rightarrow> int \<Rightarrow> string" where
  "target_day ymd now = ymd (now div DAY + 1)"

text \<open>
  A user has a registered push token: some document of \<open>push_tokens\<close> is the user's and
  is active (unregistering a token, on logout, sets \<open>active\<close> to false).
\<close>

definition has_registered_token :: "db \<Rightarrow> string \<Rightarrow> bool" where
  "has_registered_token d uid = (\<exists>t \<in> set (push_tokens d). t_user_id t = uid \<and> active t)"

text \<open>Some document of \<open>push_tokens\<close> is the user's, active or not.\<close>

definition has_token_document :: "db \<Rightarrow> string \<Rightarrow> bool" where
  "has_token_document d uid = (\<exists>t \<in> set (push_tokens d). t_user_id t = uid)"

text \<open>
  A user was nudged within the three days before the instant \<open>t\<close>: some retention record
  of the user has \<open>sent_at\<close> at or after \<open>t\<close> minus three days.
\<close>

definition recently_nudged :: "db \<Rightarrow> string \<Rightarrow> int \<Rightarrow> bool" where
  "recently_nudged d uid t =
     (\<exists>n \<in> set (retention_notifications d). n_user_id n = uid \<and> n_sent_at n \<ge> t - 3 * DAY)"

text \<open>
  No user has two retention records within a three-day window: any two records of one
  user are more than three days apart.
\<close>

fun spaced :: "retention_doc list \<Rightarrow> bool" where
  "spaced [] = True"
| "spaced (r # rs) =
     ((\<forall>r' \<in> set rs. n_user_id r' = n_user_id r \<longrightarrow> 3 * DAY < \<bar>n_sent_at r' - n_sent_at r\<bar>)
      \<and> spaced rs)"

section \<open>Example data\<close>

text \<open>Concrete documents on which the theorems below are instantiated.\<close>

text \<open>A case mapping that knows the ASCII letters only.\<close>

definition ascii_upper :: "nat \<Rightarrow> nat list" where
  "ascii_upper c = [if 97 \<le> c \<and> c \<le> 122 then c - 32 else c]"

definition ann :: user where
  "ann = \<lparr>user_id = ''u1'', email = ''ann@example.org'', name = Some (codes ''Ann Lee''),
          pseudonym = None, age = Some 30, sex = Some (codes ''F''), city = Some ''Lyon'',
          neighborhood = Some ''Nord'', notifications_enabled = Some True,
          email_notifications = Some True, status = None, lastLoginAt = None\<rparr>"

definition bob :: user where
  "bob = \<lparr>user_id = ''u2'', email = ''bob@example.org'', name = Some (codes ''Bob''),
          pseudonym = Some (codes ''bobby''), age = Some 52, sex = Some (codes ''male''),
          city = Some ''Lyon'', neighborhood = Some ''Sud'', notifications_enabled = Some True,
          email_notifications = Some False, status = Some ''suspended'', lastLoginAt = Some 0\<rparr>"

text \<open>Carol, and Dan, whose document has no name.\<close>

definition carol :: user where
  "carol = ann\<lparr>user_id := ''u3'', email := ''carol@example.org'', name := Some (codes ''Carol'')\<rparr>"

definition dan :: user where
  "dan = ann\<lparr>user_id := ''u4'', email := ''dan@example.org'', name := None\<rparr>"

text \<open>A validation that asks for the name only.\<close>

definition has_name :: "user \<Rightarrow> bool" where
  "has_name u = (name u \<noteq> None)"

definition park_walk :: walk where
  "park_walk = \<lparr>walk_id = ''w1'', title = ''Park loop'', date = ''2026-03-02'',
                walk_city = ''Lyon'', walk_neighborhood = ''Centre'', max_participants = 25,
                conditions = Some \<lparr>cond_sex = [codes ''Female''], age_groups = [''25-34'']\<rparr>,
                organizer_id = ''u9''\<rparr>"

definition seat :: booking where
  "seat = \<lparr>booking_id = ''b0'', b_walk_id = ''w1'', b_user_id = ''u2'', user_name = codes ''bobby'',
           user_email = ''bob@example.org'', booked_at = 0, b_status = ''active''\<rparr>"

definition empty_db :: db where
  "empty_db = \<lparr>users = [], walks = [], bookings = [], push_tokens = [], reminders_sent = [],
               retention_notifications = [], user_sessions = []\<rparr>"

text \<open>A store in which the walk \<open>w1\<close>, open to 25 participants, has ten active bookings.\<close>

definition full_db :: db where
  "full_db = empty_db\<lparr>users := [ann, bob], walks := [park_walk], bookings := replicate 10 seat\<rparr>"

text \<open>
  The same walk with nine active bookings, of nine other users, and two requests for it
  about to start: one of Ann, one of Carol.
\<close>

definition seat_of :: "string \<Rightarrow> string \<Rightarrow> booking" where
  "seat_of bid uid = seat\<lparr>booking_id := bid, b_user_id := uid\<rparr>"

definition nine_db :: db where
  "nine_db = empty_db\<lparr>users := [ann, carol], walks := [park_walk],
     bookings := [seat_of ''b1'' ''p1'', seat_of ''b2'' ''p2'', seat_of ''b3'' ''p3'',
                  seat_of ''b4'' ''p4'', seat_of ''b5'' ''p5'', seat_of ''b6'' ''p6'',
                  seat_of ''b7'' ''p7'', seat_of ''b8'' ''p8'', seat_of ''b9'' ''p9'']\<rparr>"

definition request_of :: "string \<Rightarrow> user \<Rightarrow> booking_request" where
  "request_of bid u =
     \<lparr>req_booking_id = bid, req_now = 7, req_walk_id = ''w1'', req_user = u, phase = FindWalk\<rparr>"

text \<open>
  Sessions: a live one of Ann, an expired one of Ann, a live one of the suspended Bob, a
  live one of Dan, and a live one of a user who is not stored.
\<close>

definition session_db :: db where
  "session_db = empty_db\<lparr>users := [ann, bob, dan],
     user_sessions :=
       [\<lparr>session_token = ''tok-ann'', s_user_id = ''u1'', expires_at = \<lparr>wall = 500, utcoffset = None\<rparr>\<rparr>,
        \<lparr>session_token = ''tok-old'', s_user_id = ''u1'', expires_at = \<lparr>wall = 50, utcoffset = None\<rparr>\<rparr>,
        \<lparr>session_token = ''tok-bob'', s_user_id = ''u2'', expires_at = \<lparr>wall = 500, utcoffset = Some 0\<rparr>\<rparr>,
        \<lparr>session_token = ''tok-dan'', s_user_id = ''u4'', expires_at = \<lparr>wall = 500, utcoffset = None\<rparr>\<rparr>,
        \<lparr>session_token = ''tok-eve'', s_user_id = ''u5'', expires_at = \<lparr>wall = 500, utcoffset = None\<rparr>\<rparr>]\<rparr>"

definition cookie_request :: "string \<Rightarrow> request" where
  "cookie_request tok =
     \<lparr>cookies = (\<lambda>k. if k = ''session_token'' then Some tok else None), headers = (\<lambda>k. None)\<rparr>"

definition bare_request :: request where
  "bare_request = \<lparr>cookies = (\<lambda>k. None), headers = (\<lambda>k. None)\<rparr>"

text \<open>Day numbers of two dates in March 2026, and a store with two walks on the second.\<close>

definition march_2026 :: "int \<Rightarrow> string" where
  "march_2026 n = (if n = 20513 then ''2026-03-01'' else if n = 20514 then ''2026-03-02'' else [])"

text \<open>An instant on 2026-03-01, one hour after midnight UTC.\<close>

definition march_first :: int where
  "march_first = 20513 * DAY + 3600000000"

definition reminder_db :: db where
  "reminder_db = empty_db\<lparr>users := [ann, bob],
     walks := [park_walk, park_walk\<lparr>walk_id := ''w2'', title := ''River path''\<rparr>,
               park_walk\<lparr>walk_id := ''w3'', date := ''2026-03-09''\<rparr>],
     bookings := [seat, seat\<lparr>booking_id := ''b1'', b_user_id := ''u1''\<rparr>,
                  seat\<lparr>booking_id := ''b2'', b_status := ''cancelled'', b_user_id := ''u7''\<rparr>],
     reminders_sent := [\<lparr>key = ''reminder_sent_w2_2026-03-02'', r_walk_id = ''w2'', r_sent_at = 3\<rparr>]\<rparr>"

text \<open>The same store once the reminder of \<open>w1\<close> is recorded, at the instant 7.\<close>

definition reminded_db :: db where
  "reminded_db = reminder_db\<lparr>reminders_sent := reminders_sent reminder_db @
     [\<lparr>key = ''reminder_sent_w1_2026-03-02'', r_walk_id = ''w1'', r_sent_at = 7\<rparr>]\<rparr>"

text \<open>A store with 1001 walks on one day, with distinct ids, and no reminder record.\<close>

definition numbered_walk :: "nat \<Rightarrow> walk" where
  "numbered_walk n = park_walk\<lparr>walk_id := replicate (Suc n) CHR ''w''\<rparr>"

definition crowded_db :: db where
  "crowded_db = empty_db\<lparr>walks := map numbered_walk [0..<1001]\<rparr>"

text \<open>Walks for men only, and for "Women" only (a word the code does not know).\<close>

definition men_walk :: walk where
  "men_walk = park_walk\<lparr>conditions := Some \<lparr>cond_sex = [codes ''M''], age_groups = []\<rparr>\<rparr>"

definition women_walk :: walk where
  "women_walk = park_walk\<lparr>conditions := Some \<lparr>cond_sex = [codes ''Women''], age_groups = []\<rparr>\<rparr>"

text \<open>
  A store for the retention job: Ann never logged in, and her only push token was
  unregistered when she logged out. Every push is delivered; the \<open>k\<close>-th call checks at
  \<open>10 * DAY + k\<close> and stamps its record one microsecond later.
\<close>

definition logged_out_db :: db where
  "logged_out_db = empty_db\<lparr>users := [ann],
     push_tokens := [\<lparr>t_user_id = ''u1'', push_token = Some ''ExponentPushToken[a]'', active = False\<rparr>]\<rparr>"

definition steady_env :: "nat \<Rightarrow> call_env" where
  "steady_env k = \<lparr>check_time = 10 * DAY + int k, sent_time = 10 * DAY + int k + 1,
                    gateway = Delivered\<rparr>"

definition nudged_db :: db where
  "nudged_db = logged_out_db\<lparr>retention_notifications :=
     [\<lparr>n_user_id = ''u1'', n_sent_at = 10 * DAY + 1\<rparr>]\<rparr>"

section \<open>Properties of \<open>normalize_sex\<close>\<close>

lemma codes_eq [simp]: "codes s = codes t \<longleftrightarrow> s = t"
  unfolding codes_def by (simp add: inj_map_eq_map inj_on_def)

lemma up_ascii: "unicode_upper up \<Longrightarrow> c < 128 \<Longrightarrow> up c = [if 97 \<le> c \<and> c \<le> 122 then c - 32 else c]"
  by (simp add: unicode_upper_def)

lemma up_space: "unicode_upper up \<Longrightarrow> py_isspace c \<Longrightarrow> up c = [c]"
  by (simp add: unicode_upper_def)

lemma up_other:
  "unicode_upper up \<Longrightarrow> \<not> py_isspace c \<Longrightarrow> up c \<noteq> [] \<and> (\<forall>x \<in> set (up c). \<not> py_isspace x)"
  by (simp add: unicode_upper_def)

lemma ascii_upper_ok: "unicode_upper ascii_upper"
  unfolding unicode_upper_def ascii_upper_def py_isspace_def by auto

lemma upper_literals:
  assumes "unicode_upper up"
  shows "py_upper up (codes ''M'') = codes ''M''" "py_upper up (codes ''Male'') = codes ''MALE''"
    "py_upper up (codes ''F'') = codes ''F''" "py_upper up (codes ''Female'') = codes ''FEMALE''"
    "py_upper up (codes ''X'') = codes ''X''"
    "py_upper up (codes ''Prefer not to say'') = codes ''PREFER NOT TO SAY''"
    "py_upper up (codes ''N/A'') = codes ''N/A''" "py_upper up (codes ''Other'') = codes ''OTHER''"
    "py_upper up (codes ''male'') = codes ''MALE''" "py_upper up (codes ''Women'') = codes ''WOMEN''"
  by (simp_all add: py_upper_def codes_def up_ascii [OF assms])

lemma strip_literals:
  "py_strip (codes ''M'') = codes ''M''" "py_strip (codes ''MALE'') = codes ''MALE''"
  "py_strip (codes ''F'') = codes ''F''" "py_strip (codes ''FEMALE'') = codes ''FEMALE''"
  "py_strip (codes ''X'') = codes ''X''"
  "py_strip (codes ''PREFER NOT TO SAY'') = codes ''PREFER NOT TO SAY''"
  "py_strip (codes ''N/A'') = codes ''N/A''" "py_strip (codes ''OTHER'') = codes ''OTHER''"
  "py_strip (codes ''WOMEN'') = codes ''WOMEN''"
  by (simp_all add: py_strip_def codes_def py_isspace_def)

lemma dropWhile_all: "list_all P l \<Longrightarrow> dropWhile P (l @ t) = dropWhile P t"
  by (induction l) simp_all

lemma dropWhile_expand:
  assumes sp: "\<And>c. P c \<Longrightarrow> g c = [c]"
      and ot: "\<And>c. \<not> P c \<Longrightarrow> g c \<noteq> [] \<and> (\<forall>x \<in> set (g c). \<not> P x)"
  shows "dropWhile P (concat (map g s)) = concat (map g (dropWhile P s))"
proof (induction s)
  case Nil
  show ?case by simp
next
  case (Cons c s)
  show ?case
  proof (cases "P c")
    case True
    with sp [OF True] Cons show ?thesis by simp
  next
    case False
    from ot [OF False] obtain x xs where g: "g c = x # xs" and x: "\<not> P x"
      by (cases "g c") auto
    with False show ?thesis by simp
  qed
qed

lemma strip_upper:
  assumes "unicode_upper up"
  shows "py_strip (py_upper up s) = py_upper up (py_strip s)"
proof -
  have 1: "\<And>t. dropWhile py_isspace (concat (map up t)) = concat (map up (dropWhile py_isspace t))"
    by (rule dropWhile_expand) (simp_all add: up_space [OF assms] up_other [OF assms])
  have 2: "\<And>t. dropWhile py_isspace (concat (map (rev \<circ> up) t))
              = concat (map (rev \<circ> up) (dropWhile py_isspace t))"
    by (rule dropWhile_expand) (simp_all add: up_space [OF assms] up_other [OF assms])
  have r: "\<And>t. rev (concat (map up t)) = concat (map (rev \<circ> up) (rev t))"
    by (simp add: rev_concat rev_map)
  have r': "\<And>t. rev (concat (map (rev \<circ> up) t)) = concat (map up (rev t))"
    by (simp add: rev_concat rev_map comp_def)
  show ?thesis
    unfolding py_strip_def py_upper_def 1 r 2 r' ..
qed

lemma upper_spaces:
  assumes "unicode_upper up"
  shows "list_all py_isspace l \<Longrightarrow> py_upper up l = l"
  by (induction l) (simp_all add: py_upper_def up_space [OF assms])

lemma upper_append: "py_upper up (a @ b) = py_upper up a @ py_upper up b"
  by (simp add: py_upper_def)

lemma strip_pad:
  assumes "list_all py_isspace l" "list_all py_isspace r" "t \<noteq> []"
    "\<not> py_isspace (hd t)" "\<not> py_isspace (last t)"
  shows "py_strip (l @ t @ r) = t"
proof -
  have 1: "dropWhile py_isspace (l @ t @ r) = t @ r"
    using assms by (cases t) (simp_all add: dropWhile_all)
  have 2: "dropWhile py_isspace (rev r @ rev t) = rev t"
    using assms by (cases "rev t") (simp_all add: dropWhile_all list_all_iff last_rev hd_rev)
  show ?thesis by (simp add: py_strip_def 1 2)
qed

lemma strip_decompose:
  "\<exists>l r. s = l @ py_strip s @ r \<and> list_all py_isspace l \<and> list_all py_isspace r"
proof -
  let ?d = "dropWhile py_isspace s"
  have 1: "s = takeWhile py_isspace s @ ?d" by simp
  have 2: "?d = py_strip s @ rev (takeWhile py_isspace (rev ?d))"
    unfolding py_strip_def by (metis takeWhile_dropWhile_id rev_append rev_rev_ident)
  have 3: "list_all py_isspace (takeWhile py_isspace s)"
    by (auto simp: list_all_iff dest: set_takeWhileD)
  have 4: "list_all py_isspace (rev (takeWhile py_isspace (rev ?d)))"
    by (auto simp: list_all_iff dest: set_takeWhileD)
  from 1 2 have "s = takeWhile py_isspace s @ py_strip s @ rev (takeWhile py_isspace (rev ?d))"
    by simp
  with 3 4 show ?thesis by blast
qed

lemma written_as_iff:
  assumes u: "unicode_upper up"
    and W: "py_upper up (codes word) = W" "W \<noteq> []" "\<not> py_isspace (hd W)" "\<not> py_isspace (last W)"
  shows "written_as up s word \<longleftrightarrow> py_strip (py_upper up s) = W"
proof
  assume "written_as up s word"
  then obtain l t r where s: "s = l @ t @ r" and l: "list_all py_isspace l"
    and r: "list_all py_isspace r" and t: "py_upper up t = W"
    using W(1) by (auto simp: written_as_def)
  have "py_upper up s = l @ W @ r"
    unfolding s upper_append upper_spaces [OF u l] upper_spaces [OF u r] t ..
  moreover have "py_strip (l @ W @ r) = W"
    using l r W(2,3,4) by (rule strip_pad)
  ultimately show "py_strip (py_upper up s) = W" by simp
next
  assume a: "py_strip (py_upper up s) = W"
  obtain l r where "s = l @ py_strip s @ r" "list_all py_isspace l" "list_all py_isspace r"
    using strip_decompose by blast
  moreover have "py_upper up (py_strip s) = py_upper up (codes word)"
    using a W(1) by (simp add: strip_upper [OF u])
  ultimately show "written_as up s word" unfolding written_as_def by blast
qed

lemma word_forms:
  assumes u: "unicode_upper up"
  shows "written_as up s ''M'' \<longleftrightarrow> py_strip (py_upper up s) = codes ''M''"
    "written_as up s ''Male'' \<longleftrightarrow> py_strip (py_upper up s) = codes ''MALE''"
    "written_as up s ''F'' \<longleftrightarrow> py_strip (py_upper up s) = codes ''F''"
    "written_as up s ''Female'' \<longleftrightarrow> py_strip (py_upper up s) = codes ''FEMALE''"
    "written_as up s ''X'' \<longleftrightarrow> py_strip (py_upper up s) = codes ''X''"
    "written_as up s ''Prefer not to say'' \<longleftrightarrow> py_strip (py_upper up s) = codes ''PREFER NOT TO SAY''"
    "written_as up s ''N/A'' \<longleftrightarrow> py_strip (py_upper up s) = codes ''N/A''"
    "written_as up s ''Other'' \<longleftrightarrow> py_strip (py_upper up s) = codes ''OTHER''"
  apply (rule written_as_iff [OF u upper_literals(1) [OF u]]; simp add: codes_def py_isspace_def)
  apply (rule written_as_iff [OF u upper_literals(2) [OF u]]; simp add: codes_def py_isspace_def)
  apply (rule written_as_iff [OF u upper_literals(3) [OF u]]; simp add: codes_def py_isspace_def)
  apply (rule written_as_iff [OF u upper_literals(4) [OF u]]; simp add: codes_def py_isspace_def)
  apply (rule written_as_iff [OF u upper_literals(5) [OF u]]; simp add: codes_def py_isspace_def)
  apply (rule written_as_iff [OF u upper_literals(6) [OF u]]; simp add: codes_def py_isspace_def)
  apply (rule written_as_iff [OF u upper_literals(7) [OF u]]; simp add: codes_def py_isspace_def)
  apply (rule written_as_iff [OF u upper_literals(8) [OF u]]; simp add: codes_def py_isspace_def)
  done

lemma strip_upper_Nil: "py_strip (py_upper up []) = []"
  by (simp add: py_strip_def py_upper_def)

lemma codes_Nil [simp]: "codes w = [] \<longleftrightarrow> w = []" "[] = codes w \<longleftrightarrow> w = []"
  by (auto simp: codes_def)

lemma norm_vals:
  assumes u: "unicode_upper up"
  shows "normalize_sex up (Some (codes ''M'')) = Some (codes ''M'')"
    "normalize_sex up (Some (codes ''F'')) = Some (codes ''F'')"
    "normalize_sex up (Some (codes ''X'')) = Some (codes ''X'')"
    "normalize_sex up None = None"
  by (simp_all add: normalize_sex_def truthy_def upper_literals [OF u] strip_literals)

lemma normalize_sex_cases:
  "normalize_sex up v = None \<or> normalize_sex up v = Some (codes ''M'')
   \<or> normalize_sex up v = Some (codes ''F'') \<or> normalize_sex up v = Some (codes ''X'')
   \<or> normalize_sex up v = v"
  by (simp add: normalize_sex_def Let_def)

text \<open>
  C6. With the case mapping of the Unicode database, \<open>normalize_sex\<close> maps M and Male, in
  any letter case and ignoring surrounding whitespace, to \<open>M\<close>; F and Female to \<open>F\<close>; X,
  Prefer not to say, N/A and Other to \<open>X\<close>; it returns any other non-empty value
  unchanged; and it is idempotent on every input, the missing value included.
\<close>

theorem normalize_sex_spec:
  assumes u: "unicode_upper up"
  shows "(written_as up s ''M'' \<or> written_as up s ''Male''
            \<longrightarrow> normalize_sex up (Some s) = Some (codes ''M''))
   \<and> (written_as up s ''F'' \<or> written_as up s ''Female''
            \<longrightarrow> normalize_sex up (Some s) = Some (codes ''F''))
   \<and> (written_as up s ''X'' \<or> written_as up s ''Prefer not to say'' \<or> written_as up s ''N/A''
        \<or> written_as up s ''Other'' \<longrightarrow> normalize_sex up (Some s) = Some (codes ''X''))
   \<and> (s \<noteq> [] \<and> (\<forall>w \<in> set sex_words. \<not> written_as up s w) \<longrightarrow> normalize_sex up (Some s) = Some s)
   \<and> normalize_sex up (normalize_sex up v) = normalize_sex up v"
proof (intro conjI impI)
  assume "written_as up s ''M'' \<or> written_as up s ''Male''"
  then have "s \<noteq> []" "py_strip (py_upper up s) \<in> set [codes ''M'', codes ''MALE'']"
    by (auto simp: word_forms [OF u] strip_upper_Nil)
  then show "normalize_sex up (Some s) = Some (codes ''M'')"
    by (simp add: normalize_sex_def truthy_def)
next
  assume "written_as up s ''F'' \<or> written_as up s ''Female''"
  then have "s \<noteq> []" "py_strip (py_upper up s) \<in> set [codes ''F'', codes ''FEMALE'']"
    by (auto simp: word_forms [OF u] strip_upper_Nil)
  then show "normalize_sex up (Some s) = Some (codes ''F'')"
    by (auto simp add: normalize_sex_def truthy_def)
next
  assume "written_as up s ''X'' \<or> written_as up s ''Prefer not to say'' \<or> written_as up s ''N/A''
        \<or> written_as up s ''Other''"
  then have "s \<noteq> []" "py_strip (py_upper up s)
      \<in> set [codes ''X'', codes ''PREFER NOT TO SAY'', codes ''N/A'', codes ''OTHER'']"
    by (auto simp: word_forms [OF u] strip_upper_Nil)
  then show "normalize_sex up (Some s) = Some (codes ''X'')"
    by (auto simp add: normalize_sex_def truthy_def)
next
  assume "s \<noteq> [] \<and> (\<forall>w \<in> set sex_words. \<not> written_as up s w)"
  then show "normalize_sex up (Some s) = Some s"
    by (simp add: sex_words_def word_forms [OF u] normalize_sex_def truthy_def)
next
  show "normalize_sex up (normalize_sex up v) = normalize_sex up v"
    using normalize_sex_cases [of up v] by (auto simp: norm_vals [OF u])
qed

theorem normalize_sex_spec_witness:
  "unicode_upper ascii_upper
   \<and> normalize_sex ascii_upper (Some (160 # codes ''M'')) = Some (codes ''M'')
   \<and> normalize_sex ascii_upper (Some (codes ''  mAle '')) = Some (codes ''M'')
   \<and> normalize_sex ascii_upper (Some (codes ''female'')) = Some (codes ''F'')
   \<and> normalize_sex ascii_upper (Some (codes ''Prefer not to say'')) = Some (codes ''X'')
   \<and> normalize_sex ascii_upper (Some (codes ''Nonbinary'')) = Some (codes ''Nonbinary'')
   \<and> normalize_sex ascii_upper (normalize_sex ascii_upper (Some (codes '' f'')))
       = normalize_sex ascii_upper (Some (codes '' f''))"
proof -
  note u = ascii_upper_ok
  note lit = upper_literals [OF u]
  have 0: "written_as ascii_upper (160 # codes ''M'') ''M''"
    unfolding written_as_def
    by (rule exI [of _ "[160]"], rule exI [of _ "codes ''M''"], rule exI [of _ "[]"])
       (simp add: py_isspace_def)
  have 1: "written_as ascii_upper (codes ''  mAle '') ''Male''"
    unfolding written_as_def
    by (rule exI [of _ "codes ''  ''"], rule exI [of _ "codes ''mAle''"], rule exI [of _ "codes '' ''"])
       (simp add: lit, simp add: py_upper_def codes_def ascii_upper_def py_isspace_def)
  have 2: "written_as ascii_upper (codes ''female'') ''Female''"
    unfolding written_as_def
    by (rule exI [of _ "[]"], rule exI [of _ "codes ''female''"], rule exI [of _ "[]"])
       (simp add: lit, simp add: py_upper_def codes_def ascii_upper_def)
  have 3: "written_as ascii_upper (codes ''Prefer not to say'') ''Prefer not to say''"
    unfolding written_as_def
    by (rule exI [of _ "[]"], rule exI [of _ "codes ''Prefer not to say''"], rule exI [of _ "[]"])
       simp
  have n: "py_strip (py_upper ascii_upper (codes ''Nonbinary'')) = codes ''NONBINARY''"
    by (simp add: py_strip_def py_upper_def codes_def ascii_upper_def py_isspace_def)
  have 4: "codes ''Nonbinary'' \<noteq> [] \<and> (\<forall>w \<in> set sex_words. \<not> written_as ascii_upper (codes ''Nonbinary'') w)"
    by (simp add: sex_words_def word_forms [OF u] n)
  note t0 = normalize_sex_spec [OF u, of "160 # codes ''M''", THEN conjunct1, THEN mp, OF disjI1, OF 0]
  note t1 = normalize_sex_spec [OF u, of "codes ''  mAle ''", THEN conjunct1, THEN mp, OF disjI2, OF 1]
  note t2 = normalize_sex_spec [OF u, of "codes ''female''", THEN conjunct2, THEN conjunct1, THEN mp,
      OF disjI2, OF 2]
  note t3 = normalize_sex_spec [OF u, of "codes ''Prefer not to say''", THEN conjunct2, THEN conjunct2,
      THEN conjunct1, THEN mp, OF disjI2, OF disjI1, OF 3]
  note t4 = normalize_sex_spec [OF u, of "codes ''Nonbinary''", THEN conjunct2, THEN conjunct2,
      THEN conjunct2, THEN conjunct1, THEN mp, OF 4]
  note t5 = normalize_sex_spec [OF u, of "[]" "Some (codes '' f'')", THEN conjunct2, THEN conjunct2,
      THEN conjunct2, THEN conjunct2]
  from u t0 t1 t2 t3 t4 t5 show ?thesis by (intro conjI)
qed

section \<open>Properties of the age bands\<close>

lemma age_group_matches_band: "age_group_matches g a \<Longrightarrow> g \<in> set age_bands"
  by (auto simp: age_group_matches_def age_bands_def split: if_splits)

text \<open>
  C5. The seven age bands are non-overlapping: for every integer age at most one band's
  matching predicate holds, both among the seven bands and among all strings.
\<close>

theorem age_bands_disjoint:
  "length (filter (\<lambda>g. age_group_matches g user_age) age_bands) \<le> 1
   \<and> (age_group_matches g1 user_age \<and> age_group_matches g2 user_age \<longrightarrow> g1 = g2)"
  unfolding age_group_matches_def age_bands_def by (auto split: if_splits)

theorem age_bands_disjoint_witness:
  "age_group_matches ''25-34'' 30
   \<and> length (filter (\<lambda>g. age_group_matches g 30) age_bands) \<le> 1
   \<and> \<not> age_group_matches ''35-44'' 30"
proof -
  have m: "age_group_matches ''25-34'' 30"
    by (simp add: age_group_matches_def)
  have "''35-44'' \<noteq> ''25-34''" by simp
  with m show ?thesis
    using age_bands_disjoint [of 30 "''35-44''" "''25-34''"] by blast
qed

text \<open>From 18 years on the statistics and the matching predicate agree.\<close>

lemma stats_age_group_adult:
  "18 \<le> a \<Longrightarrow> age_group_matches g a \<longleftrightarrow> stats_age_group (Some a) = g"
  unfolding age_group_matches_def stats_age_group_def by auto

text \<open>
  C10. The specification has the statistics assign a band exactly when that band's
  matching predicate holds. At the age 17 the statistics count the user under \<open>18-24\<close>, while the
  matching predicate of \<open>18-24\<close> (and of every other band) rejects the age.
\<close>

theorem stats_age_group_minor:
  "stats_age_group (Some 17) = ''18-24'' \<and> \<not> age_group_matches ''18-24'' 17
   \<and> length (filter (\<lambda>g. age_group_matches g 17) age_bands) = 0"
  by (simp add: stats_age_group_def age_group_matches_def age_bands_def)

section \<open>Properties of the targeting engine\<close>

lemma normalize_examples:
  assumes u: "unicode_upper up"
  shows "normalize_sex up (Some (codes ''male'')) = Some (codes ''M'')"
    "normalize_sex up (Some (codes ''F'')) = Some (codes ''F'')"
    "normalize_sex up (Some (codes ''M'')) = Some (codes ''M'')"
    "normalize_sex up (Some (codes ''Female'')) = Some (codes ''F'')"
    "normalize_sex up (Some (codes ''Women'')) = Some (codes ''Women'')"
  by (simp_all add: normalize_sex_def truthy_def upper_literals [OF u] strip_literals)

lemma normalize_list_examples:
  assumes u: "unicode_upper up"
  shows "normalize_sex_list up [codes ''Female''] = [codes ''F'']"
    "normalize_sex_list up [codes ''M''] = [codes ''M'']"
    "normalize_sex_list up [codes ''Women''] = [codes ''Women'']"
  by (simp_all add: normalize_sex_list_def normalize_examples [OF u] truthy_def)

lemma notify_examples:
  assumes u: "unicode_upper up"
  shows "notify_users up park_walk [ann, bob] = [ann]"
    "notify_users up men_walk [ann, bob] = []"
    "notify_users up women_walk [ann, bob] = [ann, bob]"
  by (simp_all add: notify_users_def park_walk_def men_walk_def women_walk_def
        normalize_list_examples [OF u] base_query_def ann_def bob_def age_group_matches_def)

text \<open>
  C1. The specification has the new walk alert every user whose sex matches one of the
  walk's sex conditions after normalization, as \<open>get_walks\<close> decides it. Bob, stored as
  \<open>male\<close>, has notifications on, lives in the city of a walk for \<open>M\<close> without age groups,
  does not organize it and passes the sex filter of \<open>get_walks\<close>, yet is not selected.
  And a walk whose only sex condition is a word the code does not know selects Ann, whom
  the sex filter of \<open>get_walks\<close> turns away.
\<close>

theorem notify_users_spelling:
  assumes u: "unicode_upper up"
  shows "get_walks_sex_filter up men_walk bob
   \<and> notifications_enabled bob = Some True
   \<and> city bob = Some (walk_city men_walk)
   \<and> user_id bob \<noteq> organizer_id men_walk
   \<and> conditions men_walk = Some \<lparr>cond_sex = [codes ''M''], age_groups = []\<rparr>
   \<and> notify_users up men_walk [ann, bob] = []
   \<and> \<not> get_walks_sex_filter up women_walk ann
   \<and> notify_users up women_walk [ann, bob] = [ann, bob]"
proof -
  have 1: "get_walks_sex_filter up men_walk bob"
    by (simp add: get_walks_sex_filter_def men_walk_def bob_def normalize_list_examples [OF u]
          normalize_examples [OF u])
  have 2: "notifications_enabled bob = Some True \<and> city bob = Some (walk_city men_walk)
           \<and> user_id bob \<noteq> organizer_id men_walk
           \<and> conditions men_walk = Some \<lparr>cond_sex = [codes ''M''], age_groups = []\<rparr>"
    by (simp add: bob_def men_walk_def park_walk_def)
  have 3: "\<not> get_walks_sex_filter up women_walk ann"
    by (simp add: get_walks_sex_filter_def women_walk_def ann_def normalize_list_examples [OF u]
          normalize_examples [OF u])
  from 1 2 notify_examples(2) [OF u] 3 notify_examples(3) [OF u] show ?thesis by simp
qed

theorem notify_users_spelling_witness:
  "unicode_upper ascii_upper
   \<and> get_walks_sex_filter ascii_upper men_walk bob
   \<and> notify_users ascii_upper men_walk [ann, bob] = []
   \<and> \<not> get_walks_sex_filter ascii_upper women_walk ann
   \<and> notify_users ascii_upper women_walk [ann, bob] = [ann, bob]"
proof -
  note t = notify_users_spelling [OF ascii_upper_ok]
  from ascii_upper_ok t show ?thesis by simp
qed

section \<open>Properties of the email notifications\<close>

lemma send_email_never: "send_email_notification k f addr = False"
  by (simp add: send_email_notification_def)

text \<open>
  C8, as amended. When a new walk is created and the targeting engine selects users,
  \<open>send_email_notification\<close> is called once for every selected user whose
  \<open>email_notifications\<close> setting is not off, after the push to all selected users; each
  call reports that no email was sent, whatever the SendGrid configuration.
\<close>

theorem notify_emails_are_mock:
  "(notify_users up w (users d) = [] \<longrightarrow> notify_previous_participants up k f w d = None)
   \<and> (notify_users up w (users d) \<noteq> [] \<longrightarrow>
        notify_previous_participants up k f w d =
          Some \<lparr>push_user_ids = map user_id (notify_users up w (users d)),
                email_calls = map (\<lambda>u. (email u, False))
                  (filter (\<lambda>u. email_notifications u \<noteq> Some False) (notify_users up w (users d)))\<rparr>)"
  by (simp add: notify_previous_participants_def Let_def send_email_never)

theorem notify_emails_are_mock_witness:
  "notify_users ascii_upper park_walk (users full_db) \<noteq> []
   \<and> notify_previous_participants ascii_upper (Some ''SG.key'') (Some ''walks@example.org'')
        park_walk full_db =
       Some \<lparr>push_user_ids = map user_id (notify_users ascii_upper park_walk (users full_db)),
             email_calls = map (\<lambda>u. (email u, False))
               (filter (\<lambda>u. email_notifications u \<noteq> Some False)
                  (notify_users ascii_upper park_walk (users full_db)))\<rparr>"
proof -
  have u: "users full_db = [ann, bob]" by (simp add: full_db_def empty_db_def)
  have 1: "notify_users ascii_upper park_walk (users full_db) \<noteq> []"
    unfolding u notify_examples(1) [OF ascii_upper_ok] by simp
  from 1 notify_emails_are_mock [of ascii_upper park_walk full_db "Some ''SG.key''"
      "Some ''walks@example.org''", THEN conjunct2, THEN mp, OF 1]
  show ?thesis by (intro conjI)
qed

text \<open>
  C8 as stated fails: with SendGrid configured, Ann is selected for the walk and has email
  notifications on, yet the one email call made for her reports that nothing was sent.
\<close>

theorem notify_emails_counterexample:
  "ann \<in> set (notify_users ascii_upper park_walk (users full_db))
   \<and> email_notifications ann = Some True
   \<and> notify_previous_participants ascii_upper (Some ''SG.key'') (Some ''walks@example.org'')
        park_walk full_db =
       Some \<lparr>push_user_ids = [''u1''], email_calls = [(''ann@example.org'', False)]\<rparr>"
proof -
  have u: "users full_db = [ann, bob]" by (simp add: full_db_def empty_db_def)
  have 1: "ann \<in> set (notify_users ascii_upper park_walk (users full_db))"
    unfolding u notify_examples(1) [OF ascii_upper_ok] by simp
  have 2: "email_notifications ann = Some True" by (simp add: ann_def)
  have 3: "notify_previous_participants ascii_upper (Some ''SG.key'') (Some ''walks@example.org'')
        park_walk full_db =
       Some \<lparr>push_user_ids = [''u1''], email_calls = [(''ann@example.org'', False)]\<rparr>"
    unfolding notify_previous_participants_def u notify_examples(1) [OF ascii_upper_ok] Let_def
    by (simp add: ann_def send_email_never)
  from 1 2 3 show ?thesis by (intro conjI)
qed

section \<open>Properties of the 24-hour reminder job\<close>

lemma reminder_key_inj: "reminder_key a day = reminder_key b day \<longleftrightarrow> a = b"
  by (simp add: reminder_key_def)

lemma find_key_None: "find (\<lambda>r. key r = k) rs = None \<longleftrightarrow> k \<notin> key ` set rs"
  by (auto simp: find_None_iff)

lemma find_key_Some: "k \<in> key ` set rs \<Longrightarrow> \<exists>r. find (\<lambda>r. key r = k) rs = Some r"
  by (cases "find (\<lambda>r. key r = k) rs") (simp_all add: find_key_None)

lemma send_walk_reminder_frame:
  "walks d' = walks d \<Longrightarrow> bookings d' = bookings d \<Longrightarrow> send_walk_reminder d' wid = send_walk_reminder d wid"
  by (simp add: send_walk_reminder_def cong: option.case_cong)

lemma reminder_loop_skip_step:
  "has_reminder d (walk_id w) day \<Longrightarrow>
     reminder_loop day clock k (w # ws) d sent = reminder_loop day clock (Suc k) ws d sent"
proof -
  assume a: "has_reminder d (walk_id w) day"
  from find_key_Some [OF a [unfolded has_reminder_def]]
  obtain r where "find (\<lambda>r. key r = reminder_key (walk_id w) day) (reminders_sent d) = Some r" ..
  then show ?thesis by simp
qed

lemma reminder_loop_send_step:
  "\<not> has_reminder d (walk_id w) day \<Longrightarrow>
     reminder_loop day clock k (w # ws) d sent =
       reminder_loop day clock (Suc k) ws
         (d\<lparr>reminders_sent := reminders_sent d @
               [\<lparr>key = reminder_key (walk_id w) day, r_walk_id = walk_id w, r_sent_at = clock k\<rparr>]\<rparr>)
         (sent @ [(walk_id w, send_walk_reminder d (walk_id w))])"
proof -
  assume "\<not> has_reminder d (walk_id w) day"
  then have "find (\<lambda>r. key r = reminder_key (walk_id w) day) (reminders_sent d) = None"
    by (simp add: has_reminder_def find_key_None)
  then show ?thesis by simp
qed

lemma reminder_loop_outcome:
  "\<exists>ids recs. loop_outcome day ws d sent (reminder_loop day clock k ws d sent) ids recs"
proof (induction ws arbitrary: d sent k)
  case Nil
  have "loop_outcome day [] d sent (reminder_loop day clock k [] d sent) [] []"
    by (simp add: loop_outcome_def)
  then show ?case by fast
next
  case (Cons w ws)
  show ?case
  proof (cases "has_reminder d (walk_id w) day")
    case True
    from Cons.IH [of d sent "Suc k"] obtain ids where
      "\<exists>recs. loop_outcome day ws d sent (reminder_loop day clock (Suc k) ws d sent) ids recs" ..
    then obtain recs where
      h: "loop_outcome day ws d sent (reminder_loop day clock (Suc k) ws d sent) ids recs" ..
    have s: "{walk_id w' | w'. w' \<in> set (w # ws) \<and> \<not> has_reminder d (walk_id w') day}
           = {walk_id w' | w'. w' \<in> set ws \<and> \<not> has_reminder d (walk_id w') day}"
      using True by auto
    have "loop_outcome day (w # ws) d sent (reminder_loop day clock k (w # ws) d sent) ids recs"
      unfolding loop_outcome_def reminder_loop_skip_step [OF True] s
      by (rule h [unfolded loop_outcome_def])
    then show ?thesis by fast
  next
    case False
    let ?rec = "\<lparr>key = reminder_key (walk_id w) day, r_walk_id = walk_id w, r_sent_at = clock k\<rparr>"
    let ?d = "d\<lparr>reminders_sent := reminders_sent d @ [?rec]\<rparr>"
    let ?sent = "sent @ [(walk_id w, send_walk_reminder d (walk_id w))]"
    from Cons.IH [of ?d ?sent "Suc k"] obtain ids where
      "\<exists>recs. loop_outcome day ws ?d ?sent (reminder_loop day clock (Suc k) ws ?d ?sent) ids recs" ..
    then obtain recs where
      h: "loop_outcome day ws ?d ?sent (reminder_loop day clock (Suc k) ws ?d ?sent) ids recs" ..
    have hr: "\<And>x. has_reminder ?d x day \<longleftrightarrow> x = walk_id w \<or> has_reminder d x day"
      by (auto simp: has_reminder_def reminder_key_inj)
    have fr: "\<And>x. send_walk_reminder ?d x = send_walk_reminder d x"
      by (rule send_walk_reminder_frame) simp_all
    note hh = h [unfolded loop_outcome_def]
    note h1 = hh [THEN conjunct1]
    note h2 = hh [THEN conjunct2, THEN conjunct1]
    note h3 = hh [THEN conjunct2, THEN conjunct2, THEN conjunct1]
    note h4 = hh [THEN conjunct2, THEN conjunct2, THEN conjunct2]
    have s: "set ids = {walk_id w' | w'. w' \<in> set ws \<and> walk_id w' \<noteq> walk_id w \<and> \<not> has_reminder d (walk_id w') day}"
      unfolding h3 hr by auto
    have 1: "reminder_loop day clock k (w # ws) d sent =
        (d\<lparr>reminders_sent := reminders_sent d @ (?rec # recs)\<rparr>,
         sent @ map (\<lambda>wid. (wid, send_walk_reminder d wid)) (walk_id w # ids))"
      unfolding reminder_loop_send_step [OF False] h1 fr by simp
    have 2: "distinct (walk_id w # ids)"
      using h2 s by auto
    have 3: "set (walk_id w # ids) = {walk_id w' | w'. w' \<in> set (w # ws) \<and> \<not> has_reminder d (walk_id w') day}"
      unfolding list.set s using False by auto
    have 4: "key ` set (?rec # recs) = (\<lambda>wid. reminder_key wid day) ` set (walk_id w # ids)"
      unfolding list.set image_insert h4 by simp
    have "loop_outcome day (w # ws) d sent (reminder_loop day clock k (w # ws) d sent)
            (walk_id w # ids) (?rec # recs)"
      unfolding loop_outcome_def by (intro conjI 1 2 3 4)
    then show ?thesis by fast
  qed
qed

lemma reminder_loop_skip:
  "\<forall>w \<in> set ws. has_reminder d (walk_id w) day \<Longrightarrow> reminder_loop day clock k ws d sent = (d, sent)"
proof (induction ws arbitrary: k)
  case Nil
  show ?case by simp
next
  case (Cons w ws)
  from Cons.prems have a: "has_reminder d (walk_id w) day" and b: "\<forall>w \<in> set ws. has_reminder d (walk_id w) day"
    by simp_all
  show ?case unfolding reminder_loop_skip_step [OF a] by (rule Cons.IH [OF b])
qed

lemma tomorrow_is_target: "ymd ((now + 1 * DAY) div DAY) = target_day ymd now"
proof -
  have "(now + 1 * DAY) div DAY = now div DAY + 1"
    by (simp add: DAY_def)
  then show ?thesis by (simp add: target_day_def)
qed

lemma job_is_loop:
  "check_and_send_24h_reminders ymd clock now d =
     reminder_loop (target_day ymd now) clock 0
       (take 1000 (filter (\<lambda>w. date w = target_day ymd now) (walks d))) d []"
  unfolding check_and_send_24h_reminders_def Let_def tomorrow_is_target
  by simp

lemma addressees_send_walk_reminder:
  assumes "w \<in> set (walks d)"
  shows "addressees (send_walk_reminder d (walk_id w))
           = b_user_id ` set (take 1000 (active_bookings d (walk_id w)))"
proof -
  from assms have "\<not> (\<forall>x \<in> set (walks d). walk_id x \<noteq> walk_id w)" by blast
  then obtain x where "find (\<lambda>x. walk_id x = walk_id w) (walks d) = Some x"
    by (cases "find (\<lambda>x. walk_id x = walk_id w) (walks d)") (auto simp: find_None_iff)
  then show ?thesis
    by (simp add: send_walk_reminder_def addressees_def active_bookings_def Let_def)
qed

lemma march_target: "target_day march_2026 march_first = ''2026-03-02''"
  by (simp add: target_day_def march_first_def DAY_def march_2026_def)

lemma reminder_db_run:
  "check_and_send_24h_reminders march_2026 (\<lambda>k. 7) march_first reminder_db
     = (reminded_db, [(''w1'', Some [''u2'', ''u1''])])"
  unfolding job_is_loop march_target
  by (simp add: reminder_db_def reminded_db_def empty_db_def park_walk_def seat_def
        reminder_key_def send_walk_reminder_def)

lemma crowded_found:
  "take 1000 (filter (\<lambda>w. date w = ''2026-03-02'') (walks crowded_db)) = map numbered_walk [0..<1000]"
proof -
  have "filter (\<lambda>w. date w = ''2026-03-02'') (map numbered_walk [0..<1001]) = map numbered_walk [0..<1001]"
    by (simp add: filter_map comp_def numbered_walk_def park_walk_def)
  moreover have "take 1000 (map numbered_walk [0..<1001]) = map numbered_walk (take 1000 [0..<1001])"
    by (rule take_map)
  moreover have "take 1000 [0..<1001] = [0..<1000]"
    by (simp add: take_upt)
  ultimately show ?thesis by (simp add: crowded_db_def empty_db_def)
qed

text \<open>
  C2, as amended. Each run of the hourly job calls \<open>send_walk_reminder\<close> once for each
  walk id found among the first 1000 stored walks whose date string is the day after the
  current UTC date and that have no \<open>reminders_sent\<close> record keyed to that walk and
  date, and for no other; the push of each call is addressed to exactly the users holding
  one of the first 1000 active bookings on the walk (to nobody when there is none).
\<close>

theorem reminders_sent_for:
  assumes "check_and_send_24h_reminders ymd clock now d = (d1, sent)"
  shows "distinct (map fst sent)
     \<and> set (map fst sent) =
         {walk_id w | w. w \<in> set (take 1000 (filter (\<lambda>w. date w = target_day ymd now) (walks d)))
                        \<and> \<not> has_reminder d (walk_id w) (target_day ymd now)}
     \<and> (\<forall>(wid, r) \<in> set sent.
           addressees r = b_user_id ` set (take 1000 (active_bookings d wid)))"
proof -
  let ?day = "target_day ymd now"
  let ?found = "take 1000 (filter (\<lambda>w. date w = ?day) (walks d))"
  from reminder_loop_outcome [of ?day ?found d "[]" clock 0] obtain ids where
    "\<exists>recs. loop_outcome ?day ?found d [] (reminder_loop ?day clock 0 ?found d []) ids recs" ..
  then obtain recs where
    h: "loop_outcome ?day ?found d [] (reminder_loop ?day clock 0 ?found d []) ids recs" ..
  note hh = h [unfolded loop_outcome_def job_is_loop [symmetric] assms]
  from hh [THEN conjunct1] have sent: "sent = map (\<lambda>wid. (wid, send_walk_reminder d wid)) ids"
    by simp
  note dist = hh [THEN conjunct2, THEN conjunct1]
  note ids = hh [THEN conjunct2, THEN conjunct2, THEN conjunct1]
  have m: "map fst sent = ids"
    unfolding sent by (simp add: comp_def)
  have 1: "distinct (map fst sent)"
    unfolding m by (rule dist)
  have 2: "set (map fst sent) = {walk_id w | w. w \<in> set ?found \<and> \<not> has_reminder d (walk_id w) ?day}"
    unfolding m by (rule ids)
  have 3: "\<forall>(wid, r) \<in> set sent. addressees r = b_user_id ` set (take 1000 (active_bookings d wid))"
  proof (clarify)
    fix wid r
    assume "(wid, r) \<in> set sent"
    then have r: "r = send_walk_reminder d wid" and "wid \<in> set ids"
      unfolding sent by auto
    then obtain w where "w \<in> set ?found" "wid = walk_id w"
      unfolding ids by blast
    then have "w \<in> set (walks d)" "wid = walk_id w"
      by (auto dest: in_set_takeD)
    then show "addressees r = b_user_id ` set (take 1000 (active_bookings d wid))"
      unfolding r using addressees_send_walk_reminder by simp
  qed
  from 1 2 3 show ?thesis by (intro conjI)
qed

theorem reminders_sent_for_witness:
  "check_and_send_24h_reminders march_2026 (\<lambda>k. 7) march_first reminder_db
     = (reminded_db, [(''w1'', Some [''u2'', ''u1''])])
   \<and> set (map fst [(''w1'', Some [''u2'', ''u1''])]) =
         {walk_id w | w. w \<in> set (take 1000 (filter (\<lambda>w. date w = target_day march_2026 march_first)
                                               (walks reminder_db)))
                        \<and> \<not> has_reminder reminder_db (walk_id w) (target_day march_2026 march_first)}
   \<and> addressees (Some [''u2'', ''u1'']) = b_user_id ` set (take 1000 (active_bookings reminder_db ''w1''))"
proof -
  note t = reminders_sent_for [OF reminder_db_run]
  from t [THEN conjunct2, THEN conjunct2]
  have "addressees (Some [''u2'', ''u1'']) = b_user_id ` set (take 1000 (active_bookings reminder_db ''w1''))"
    by simp
  with reminder_db_run t [THEN conjunct2, THEN conjunct1] show ?thesis by (intro conjI)
qed

text \<open>
  C2 as stated fails beyond the limit of the query: of 1001 walks on the target day, none
  with a reminder record, the last one gets no reminder.
\<close>

theorem reminders_crowded_counterexample:
  "numbered_walk 1000 \<in> set (walks crowded_db)
   \<and> date (numbered_walk 1000) = target_day march_2026 march_first
   \<and> \<not> has_reminder crowded_db (walk_id (numbered_walk 1000)) (target_day march_2026 march_first)
   \<and> walk_id (numbered_walk 1000)
        \<notin> fst ` set (snd (check_and_send_24h_reminders march_2026 (\<lambda>k. 0) march_first crowded_db))"
proof -
  let ?day = "target_day march_2026 march_first"
  let ?found = "take 1000 (filter (\<lambda>w. date w = ?day) (walks crowded_db))"
  have 1: "numbered_walk 1000 \<in> set (walks crowded_db)"
    by (simp add: crowded_db_def empty_db_def)
  have 2: "date (numbered_walk 1000) = ?day"
    by (simp add: march_target numbered_walk_def park_walk_def)
  have 3: "\<not> has_reminder crowded_db (walk_id (numbered_walk 1000)) ?day"
    by (simp add: has_reminder_def crowded_db_def empty_db_def)
  from reminder_loop_outcome [of ?day ?found crowded_db "[]" "\<lambda>k. 0" 0] obtain ids where
    "\<exists>recs. loop_outcome ?day ?found crowded_db []
        (reminder_loop ?day (\<lambda>k. 0) 0 ?found crowded_db []) ids recs" ..
  then obtain recs where
    h: "loop_outcome ?day ?found crowded_db []
        (reminder_loop ?day (\<lambda>k. 0) 0 ?found crowded_db []) ids recs" ..
  note hh = h [unfolded loop_outcome_def job_is_loop [symmetric]]
  from hh [THEN conjunct1]
  have "snd (check_and_send_24h_reminders march_2026 (\<lambda>k. 0) march_first crowded_db)
          = map (\<lambda>wid. (wid, send_walk_reminder crowded_db wid)) ids"
    by simp
  then have m: "fst ` set (snd (check_and_send_24h_reminders march_2026 (\<lambda>k. 0) march_first crowded_db)) = set ids"
    by (simp add: image_image)
  have "set ids \<subseteq> walk_id ` set ?found"
    unfolding hh [THEN conjunct2, THEN conjunct2, THEN conjunct1] by blast
  also have "\<dots> = walk_id ` numbered_walk ` {0..<1000}"
    unfolding march_target crowded_found by simp
  finally have sub: "set ids \<subseteq> walk_id ` numbered_walk ` {0..<1000}" .
  have 4: "walk_id (numbered_walk 1000) \<notin> set ids"
  proof
    assume "walk_id (numbered_walk 1000) \<in> set ids"
    with sub obtain n where n: "n < 1000" "walk_id (numbered_walk 1000) = walk_id (numbered_walk n)"
      by auto
    then have "length (walk_id (numbered_walk 1000)) = length (walk_id (numbered_walk n))" by simp
    with n(1) show False by (simp add: numbered_walk_def)
  qed
  from 1 2 3 4 show ?thesis unfolding m by (intro conjI)
qed

text \<open>
  C3. After a run of the hourly job, a second run with the same current UTC date (at any
  instant of that day, whatever the clock reads) calls \<open>send_walk_reminder\<close> for no walk
  and leaves the store, \<open>reminders_sent\<close> included, as it is: every walk the first run
  looked at has a record under the key built from its id and the target date.
\<close>

theorem reminders_idempotent:
  assumes "check_and_send_24h_reminders ymd clock now d = (d1, sent)"
      and "now' div DAY = now div DAY"
  shows "check_and_send_24h_reminders ymd clock' now' d1 = (d1, [])
     \<and> (\<forall>w \<in> set (take 1000 (filter (\<lambda>w. date w = target_day ymd now) (walks d))).
           has_reminder d1 (walk_id w) (target_day ymd now))"
proof -
  let ?day = "target_day ymd now"
  let ?found = "take 1000 (filter (\<lambda>w. date w = ?day) (walks d))"
  from reminder_loop_outcome [of ?day ?found d "[]" clock 0] obtain ids where
    "\<exists>recs. loop_outcome ?day ?found d [] (reminder_loop ?day clock 0 ?found d []) ids recs" ..
  then obtain recs where
    h: "loop_outcome ?day ?found d [] (reminder_loop ?day clock 0 ?found d []) ids recs" ..
  note hh = h [unfolded loop_outcome_def job_is_loop [symmetric] assms]
  from hh [THEN conjunct1] have d1: "d1 = d\<lparr>reminders_sent := reminders_sent d @ recs\<rparr>"
    by simp
  note ids = hh [THEN conjunct2, THEN conjunct2, THEN conjunct1]
  note keys = hh [THEN conjunct2, THEN conjunct2, THEN conjunct2]
  have rec: "\<forall>w \<in> set ?found. has_reminder d1 (walk_id w) ?day"
  proof
    fix w
    assume w: "w \<in> set ?found"
    show "has_reminder d1 (walk_id w) ?day"
    proof (cases "has_reminder d (walk_id w) ?day")
      case True
      then show ?thesis by (auto simp: has_reminder_def d1)
    next
      case False
      with w have "walk_id w \<in> set ids" unfolding ids by blast
      then have "reminder_key (walk_id w) ?day \<in> key ` set recs" unfolding keys by blast
      then show ?thesis by (auto simp: has_reminder_def d1)
    qed
  qed
  have same_day: "target_day ymd now' = ?day"
    using assms(2) by (simp add: target_day_def)
  have same_walks: "walks d1 = walks d" by (simp add: d1)
  have "check_and_send_24h_reminders ymd clock' now' d1 = reminder_loop ?day clock' 0 ?found d1 []"
    unfolding job_is_loop same_day same_walks ..
  also have "\<dots> = (d1, [])"
    by (rule reminder_loop_skip [OF rec])
  finally show ?thesis using rec by (intro conjI)
qed

theorem reminders_idempotent_witness:
  "check_and_send_24h_reminders march_2026 (\<lambda>k. 7) march_first reminder_db
     = (reminded_db, [(''w1'', Some [''u2'', ''u1''])])
   \<and> (march_first + 3600000000) div DAY = march_first div DAY
   \<and> check_and_send_24h_reminders march_2026 (\<lambda>k. 9) (march_first + 3600000000) reminded_db
     = (reminded_db, [])"
proof -
  have same: "(march_first + 3600000000) div DAY = march_first div DAY"
    by (simp add: march_first_def DAY_def)
  from reminder_db_run same
    reminders_idempotent [OF reminder_db_run same, of "\<lambda>k. 9", THEN conjunct1]
  show ?thesis by (intro conjI)
qed

section \<open>Properties of \<open>get_current_user\<close>\<close>

lemma gcu_no_token:
  "\<not> truthy (get_session_token req)
     \<Longrightarrow> get_current_user acc now d req = Inl (HTTPException 401 ''Not authenticated'')"
  by (simp add: get_current_user_def)

lemma gcu_no_session:
  "truthy (get_session_token req)
     \<Longrightarrow> \<forall>s \<in> set (user_sessions d). session_token s \<noteq> the (get_session_token req)
     \<Longrightarrow> get_current_user acc now d req = Inl (HTTPException 401 ''Invalid session'')"
proof -
  assume t: "truthy (get_session_token req)"
    and n: "\<forall>s \<in> set (user_sessions d). session_token s \<noteq> the (get_session_token req)"
  from n have "find (\<lambda>s. session_token s = the (get_session_token req)) (user_sessions d) = None"
    by (simp add: find_None_iff)
  with t show ?thesis by (simp add: get_current_user_def)
qed

lemma gcu_expired:
  "truthy (get_session_token req)
     \<Longrightarrow> find (\<lambda>s. session_token s = the (get_session_token req)) (user_sessions d) = Some session
     \<Longrightarrow> utc_instant (expires_at session) < now
     \<Longrightarrow> get_current_user acc now d req = Inl (HTTPException 401 ''Session expired'')"
  by (simp add: get_current_user_def)

lemma gcu_user:
  "truthy (get_session_token req)
     \<Longrightarrow> find (\<lambda>s. session_token s = the (get_session_token req)) (user_sessions d) = Some session
     \<Longrightarrow> \<not> utc_instant (expires_at session) < now
     \<Longrightarrow> find (\<lambda>u. user_id u = s_user_id session) (users d) = Some user_doc
     \<Longrightarrow> get_current_user acc now d req =
           (let user_status = (case status user_doc of None \<Rightarrow> ''active'' | Some st \<Rightarrow> st) in
            if user_status = ''blocked''
            then Inl (HTTPException 403 ''Your account has been blocked. Please contact support.'')
            else if user_status = ''suspended''
            then Inl (HTTPException 403
                   ''Your account has been temporarily suspended. Please contact support.'')
            else if acc user_doc then Inr user_doc
            else Inl ValidationError)"
  by (simp add: get_current_user_def)

lemma gcu_forbidden:
  "truthy (get_session_token req)
     \<Longrightarrow> find (\<lambda>s. session_token s = the (get_session_token req)) (user_sessions d) = Some session
     \<Longrightarrow> \<not> utc_instant (expires_at session) < now
     \<Longrightarrow> find (\<lambda>u. user_id u = s_user_id session) (users d) = Some user_doc
     \<Longrightarrow> status user_doc = Some ''suspended'' \<or> status user_doc = Some ''blocked''
     \<Longrightarrow> \<exists>detail. get_current_user acc now d req = Inl (HTTPException 403 detail)"
  by (auto simp: gcu_user)

lemma gcu_proceeds:
  "truthy (get_session_token req)
     \<Longrightarrow> find (\<lambda>s. session_token s = the (get_session_token req)) (user_sessions d) = Some session
     \<Longrightarrow> \<not> utc_instant (expires_at session) < now
     \<Longrightarrow> find (\<lambda>u. user_id u = s_user_id session) (users d) = Some user_doc
     \<Longrightarrow> status user_doc \<noteq> Some ''suspended'' \<Longrightarrow> status user_doc \<noteq> Some ''blocked''
     \<Longrightarrow> get_current_user acc now d req = (if acc user_doc then Inr user_doc else Inl ValidationError)"
  by (cases "status user_doc") (simp_all add: gcu_user)

lemma gcu_no_user:
  "truthy (get_session_token req)
     \<Longrightarrow> find (\<lambda>s. session_token s = the (get_session_token req)) (user_sessions d) = Some session
     \<Longrightarrow> \<not> utc_instant (expires_at session) < now
     \<Longrightarrow> find (\<lambda>u. user_id u = s_user_id session) (users d) = None
     \<Longrightarrow> get_current_user acc now d req = Inl (HTTPException 404 ''User not found'')"
  by (simp add: get_current_user_def)

lemma gcu_only:
  assumes r: "get_current_user acc now d req = Inr current_user"
  shows "truthy (get_session_token req)
          \<and> (\<exists>s. find (\<lambda>s. session_token s = the (get_session_token req)) (user_sessions d) = Some s
                 \<and> \<not> utc_instant (expires_at s) < now
                 \<and> find (\<lambda>u. user_id u = s_user_id s) (users d) = Some current_user)
          \<and> status current_user \<noteq> Some ''suspended'' \<and> status current_user \<noteq> Some ''blocked''
          \<and> acc current_user"
proof -
  have t: "truthy (get_session_token req)"
    using r gcu_no_token [of req acc now d] by auto
  obtain s where s: "find (\<lambda>s. session_token s = the (get_session_token req)) (user_sessions d) = Some s"
  proof (cases "find (\<lambda>s. session_token s = the (get_session_token req)) (user_sessions d)")
    case None
    then have "\<forall>s \<in> set (user_sessions d). session_token s \<noteq> the (get_session_token req)"
      by (simp add: find_None_iff)
    from gcu_no_session [OF t this, of acc now] r show ?thesis by simp
  next
    case (Some a)
    then show ?thesis using that by simp
  qed
  have e: "\<not> utc_instant (expires_at s) < now"
    using r gcu_expired [OF t s, of now acc] by auto
  obtain u where u: "find (\<lambda>u. user_id u = s_user_id s) (users d) = Some u"
    using r gcu_no_user [OF t s e, of acc]
    by (cases "find (\<lambda>u. user_id u = s_user_id s) (users d)") auto
  have b: "status u \<noteq> Some ''blocked''"
    using r by (auto simp: gcu_user [OF t s e u])
  have p: "status u \<noteq> Some ''suspended''"
    using r by (auto simp: gcu_user [OF t s e u])
  have a: "acc u"
    using r gcu_proceeds [OF t s e u p b, of acc] by (cases "acc u") simp_all
  have "u = current_user"
    using r a gcu_proceeds [OF t s e u p b, of acc] by simp
  with t s e u b p a show ?thesis by auto
qed

text \<open>
  C7. \<open>get_current_user\<close> fails with HTTP 401 when the request carries no session token,
  when the token matches no stored session, and when the session found has expired; with
  a live session whose user is stored it fails with HTTP 403 when the user's status is
  suspended or blocked; and it returns a user only when none of these holds: the user it
  returns is the stored user of a live session, is neither suspended nor blocked, and fits
  the \<open>User\<close> model. Past the 401 and 403 checks the operation proceeds as that user when
  the stored document fits the model; otherwise \<open>User(**user_doc)\<close> raises, and a live
  session whose user is not stored fails with HTTP 404.
\<close>

theorem get_current_user_auth:
  "(\<not> truthy (get_session_token req)
      \<longrightarrow> get_current_user User_accepts now d req = Inl (HTTPException 401 ''Not authenticated''))
   \<and> (truthy (get_session_token req)
        \<and> (\<forall>s \<in> set (user_sessions d). session_token s \<noteq> the (get_session_token req))
      \<longrightarrow> get_current_user User_accepts now d req = Inl (HTTPException 401 ''Invalid session''))
   \<and> (truthy (get_session_token req)
        \<and> find (\<lambda>s. session_token s = the (get_session_token req)) (user_sessions d) = Some session
        \<and> utc_instant (expires_at session) < now
      \<longrightarrow> get_current_user User_accepts now d req = Inl (HTTPException 401 ''Session expired''))
   \<and> (truthy (get_session_token req)
        \<and> find (\<lambda>s. session_token s = the (get_session_token req)) (user_sessions d) = Some session
        \<and> \<not> utc_instant (expires_at session) < now
        \<and> find (\<lambda>u. user_id u = s_user_id session) (users d) = Some user_doc
        \<and> (status user_doc = Some ''suspended'' \<or> status user_doc = Some ''blocked'')
      \<longrightarrow> (\<exists>detail. get_current_user User_accepts now d req = Inl (HTTPException 403 detail)))
   \<and> (get_current_user User_accepts now d req = Inr current_user
      \<longrightarrow> truthy (get_session_token req)
          \<and> (\<exists>s. find (\<lambda>s. session_token s = the (get_session_token req)) (user_sessions d) = Some s
                 \<and> \<not> utc_instant (expires_at s) < now
                 \<and> find (\<lambda>u. user_id u = s_user_id s) (users d) = Some current_user)
          \<and> status current_user \<noteq> Some ''suspended'' \<and> status current_user \<noteq> Some ''blocked''
          \<and> User_accepts current_user)
   \<and> (truthy (get_session_token req)
        \<and> find (\<lambda>s. session_token s = the (get_session_token req)) (user_sessions d) = Some session
        \<and> \<not> utc_instant (expires_at session) < now
        \<and> find (\<lambda>u. user_id u = s_user_id session) (users d) = Some user_doc
        \<and> status user_doc \<noteq> Some ''suspended'' \<and> status user_doc \<noteq> Some ''blocked''
        \<and> User_accepts user_doc
      \<longrightarrow> get_current_user User_accepts now d req = Inr user_doc)
   \<and> (truthy (get_session_token req)
        \<and> find (\<lambda>s. session_token s = the (get_session_token req)) (user_sessions d) = Some session
        \<and> \<not> utc_instant (expires_at session) < now
        \<and> find (\<lambda>u. user_id u = s_user_id session) (users d) = Some user_doc
        \<and> status user_doc \<noteq> Some ''suspended'' \<and> status user_doc \<noteq> Some ''blocked''
        \<and> \<not> User_accepts user_doc
      \<longrightarrow> get_current_user User_accepts now d req = Inl ValidationError)
   \<and> (truthy (get_session_token req)
        \<and> find (\<lambda>s. session_token s = the (get_session_token req)) (user_sessions d) = Some session
        \<and> \<not> utc_instant (expires_at session) < now
        \<and> find (\<lambda>u. user_id u = s_user_id session) (users d) = None
      \<longrightarrow> get_current_user User_accepts now d req = Inl (HTTPException 404 ''User not found''))"
proof (intro conjI impI)
  assume "\<not> truthy (get_session_token req)"
  then show "get_current_user User_accepts now d req = Inl (HTTPException 401 ''Not authenticated'')"
    by (rule gcu_no_token)
next
  assume "truthy (get_session_token req)
        \<and> (\<forall>s \<in> set (user_sessions d). session_token s \<noteq> the (get_session_token req))"
  then show "get_current_user User_accepts now d req = Inl (HTTPException 401 ''Invalid session'')"
    by (simp add: gcu_no_session)
next
  assume "truthy (get_session_token req)
        \<and> find (\<lambda>s. session_token s = the (get_session_token req)) (user_sessions d) = Some session
        \<and> utc_instant (expires_at session) < now"
  then show "get_current_user User_accepts now d req = Inl (HTTPException 401 ''Session expired'')"
    by (simp add: gcu_expired)
next
  assume a: "truthy (get_session_token req)
        \<and> find (\<lambda>s. session_token s = the (get_session_token req)) (user_sessions d) = Some session
        \<and> \<not> utc_instant (expires_at session) < now
        \<and> find (\<lambda>u. user_id u = s_user_id session) (users d) = Some user_doc
        \<and> (status user_doc = Some ''suspended'' \<or> status user_doc = Some ''blocked'')"
  show "\<exists>detail. get_current_user User_accepts now d req = Inl (HTTPException 403 detail)"
    by (rule gcu_forbidden [OF a [THEN conjunct1] a [THEN conjunct2, THEN conjunct1]
          a [THEN conjunct2, THEN conjunct2, THEN conjunct1]
          a [THEN conjunct2, THEN conjunct2, THEN conjunct2, THEN conjunct1]
          a [THEN conjunct2, THEN conjunct2, THEN conjunct2, THEN conjunct2]])
next
  assume r: "get_current_user User_accepts now d req = Inr current_user"
  note o = gcu_only [OF r]
  from o show "truthy (get_session_token req)" by (rule conjunct1)
  from o show "\<exists>s. find (\<lambda>s. session_token s = the (get_session_token req)) (user_sessions d) = Some s
                 \<and> \<not> utc_instant (expires_at s) < now
                 \<and> find (\<lambda>u. user_id u = s_user_id s) (users d) = Some current_user"
    by (rule conjunct2 [THEN conjunct1])
  from o show "status current_user \<noteq> Some ''suspended''"
    by (rule conjunct2 [THEN conjunct2, THEN conjunct1])
  from o show "status current_user \<noteq> Some ''blocked''"
    by (rule conjunct2 [THEN conjunct2, THEN conjunct2, THEN conjunct1])
  from o show "User_accepts current_user"
    by (rule conjunct2 [THEN conjunct2, THEN conjunct2, THEN conjunct2])
next
  assume a: "truthy (get_session_token req)
        \<and> find (\<lambda>s. session_token s = the (get_session_token req)) (user_sessions d) = Some session
        \<and> \<not> utc_instant (expires_at session) < now
        \<and> find (\<lambda>u. user_id u = s_user_id session) (users d) = Some user_doc
        \<and> status user_doc \<noteq> Some ''suspended'' \<and> status user_doc \<noteq> Some ''blocked''
        \<and> User_accepts user_doc"
  then show "get_current_user User_accepts now d req = Inr user_doc"
    by (simp add: gcu_proceeds)
next
  assume a: "truthy (get_session_token req)
        \<and> find (\<lambda>s. session_token s = the (get_session_token req)) (user_sessions d) = Some session
        \<and> \<not> utc_instant (expires_at session) < now
        \<and> find (\<lambda>u. user_id u = s_user_id session) (users d) = Some user_doc
        \<and> status user_doc \<noteq> Some ''suspended'' \<and> status user_doc \<noteq> Some ''blocked''
        \<and> \<not> User_accepts user_doc"
  then show "get_current_user User_accepts now d req = Inl ValidationError"
    by (simp add: gcu_proceeds)
next
  assume a: "truthy (get_session_token req)
        \<and> find (\<lambda>s. session_token s = the (get_session_token req)) (user_sessions d) = Some session
        \<and> \<not> utc_instant (expires_at session) < now
        \<and> find (\<lambda>u. user_id u = s_user_id session) (users d) = None"
  then show "get_current_user User_accepts now d req = Inl (HTTPException 404 ''User not found'')"
    by (simp add: gcu_no_user)
qed

lemma tok: "get_session_token (cookie_request (c # cs)) = Some (c # cs)"
  "get_session_token bare_request = None"
  by (simp_all add: get_session_token_def cookie_request_def bare_request_def truthy_def)

theorem get_current_user_auth_witness:
  "get_current_user has_name 100 session_db bare_request = Inl (HTTPException 401 ''Not authenticated'')
   \<and> get_current_user has_name 100 session_db (cookie_request ''tok-zzz'')
       = Inl (HTTPException 401 ''Invalid session'')
   \<and> get_current_user has_name 100 session_db (cookie_request ''tok-old'')
       = Inl (HTTPException 401 ''Session expired'')
   \<and> (\<exists>detail. get_current_user has_name 100 session_db (cookie_request ''tok-bob'')
       = Inl (HTTPException 403 detail))
   \<and> get_current_user has_name 100 session_db (cookie_request ''tok-ann'') = Inr ann
   \<and> get_current_user has_name 100 session_db (cookie_request ''tok-dan'') = Inl ValidationError
   \<and> get_current_user has_name 100 session_db (cookie_request ''tok-eve'')
       = Inl (HTTPException 404 ''User not found'')
   \<and> has_name ann"
proof -
  let ?S = "\<lambda>i. user_sessions session_db ! i"
  have 1: "\<not> truthy (get_session_token bare_request)"
    by (simp add: tok truthy_def)
  have 2: "truthy (get_session_token (cookie_request ''tok-zzz''))
     \<and> (\<forall>s \<in> set (user_sessions session_db). session_token s \<noteq> the (get_session_token (cookie_request ''tok-zzz'')))"
    by (simp add: tok truthy_def session_db_def empty_db_def)
  have 3: "truthy (get_session_token (cookie_request ''tok-old''))
     \<and> find (\<lambda>s. session_token s = the (get_session_token (cookie_request ''tok-old''))) (user_sessions session_db) = Some (?S 1)
     \<and> utc_instant (expires_at (?S 1)) < 100"
    by (simp add: tok truthy_def session_db_def empty_db_def utc_instant_def)
  have 4: "truthy (get_session_token (cookie_request ''tok-bob''))
     \<and> find (\<lambda>s. session_token s = the (get_session_token (cookie_request ''tok-bob''))) (user_sessions session_db) = Some (?S 2)
     \<and> \<not> utc_instant (expires_at (?S 2)) < 100
     \<and> find (\<lambda>u. user_id u = s_user_id (?S 2)) (users session_db) = Some bob
     \<and> (status bob = Some ''suspended'' \<or> status bob = Some ''blocked'')"
    by (simp add: tok truthy_def session_db_def empty_db_def utc_instant_def ann_def bob_def)
  have 5: "truthy (get_session_token (cookie_request ''tok-ann''))
     \<and> find (\<lambda>s. session_token s = the (get_session_token (cookie_request ''tok-ann''))) (user_sessions session_db) = Some (?S 0)
     \<and> \<not> utc_instant (expires_at (?S 0)) < 100
     \<and> find (\<lambda>u. user_id u = s_user_id (?S 0)) (users session_db) = Some ann
     \<and> status ann \<noteq> Some ''suspended'' \<and> status ann \<noteq> Some ''blocked''
     \<and> has_name ann"
    by (simp add: tok truthy_def session_db_def empty_db_def utc_instant_def ann_def bob_def
          has_name_def)
  have 6: "truthy (get_session_token (cookie_request ''tok-dan''))
     \<and> find (\<lambda>s. session_token s = the (get_session_token (cookie_request ''tok-dan''))) (user_sessions session_db) = Some (?S 3)
     \<and> \<not> utc_instant (expires_at (?S 3)) < 100
     \<and> find (\<lambda>u. user_id u = s_user_id (?S 3)) (users session_db) = Some dan
     \<and> status dan \<noteq> Some ''suspended'' \<and> status dan \<noteq> Some ''blocked''
     \<and> \<not> has_name dan"
    by (simp add: tok truthy_def session_db_def empty_db_def utc_instant_def ann_def bob_def
          dan_def has_name_def)
  have 7: "truthy (get_session_token (cookie_request ''tok-eve''))
     \<and> find (\<lambda>s. session_token s = the (get_session_token (cookie_request ''tok-eve''))) (user_sessions session_db) = Some (?S 4)
     \<and> \<not> utc_instant (expires_at (?S 4)) < 100
     \<and> find (\<lambda>u. user_id u = s_user_id (?S 4)) (users session_db) = None"
    by (simp add: tok truthy_def session_db_def empty_db_def utc_instant_def ann_def bob_def
          dan_def)
  note a1 = get_current_user_auth [of bare_request has_name 100 session_db, THEN conjunct1, THEN mp, OF 1]
  note a2 = get_current_user_auth [of "cookie_request ''tok-zzz''" has_name 100 session_db,
      THEN conjunct2, THEN conjunct1, THEN mp, OF 2]
  note a3 = get_current_user_auth [of "cookie_request ''tok-old''" has_name 100 session_db "?S 1",
      THEN conjunct2, THEN conjunct2, THEN conjunct1, THEN mp, OF 3]
  note a4 = get_current_user_auth [of "cookie_request ''tok-bob''" has_name 100 session_db "?S 2" bob,
      THEN conjunct2, THEN conjunct2, THEN conjunct2, THEN conjunct1, THEN mp, OF 4]
  note a5 = get_current_user_auth [of "cookie_request ''tok-ann''" has_name 100 session_db "?S 0" ann,
      THEN conjunct2, THEN conjunct2, THEN conjunct2, THEN conjunct2, THEN conjunct2,
      THEN conjunct1, THEN mp, OF 5]
  note a6 = get_current_user_auth [of "cookie_request ''tok-dan''" has_name 100 session_db "?S 3" dan,
      THEN conjunct2, THEN conjunct2, THEN conjunct2, THEN conjunct2, THEN conjunct2,
      THEN conjunct2, THEN conjunct1, THEN mp, OF 6]
  note a7 = get_current_user_auth [of "cookie_request ''tok-eve''" has_name 100 session_db "?S 4",
      THEN conjunct2, THEN conjunct2, THEN conjunct2, THEN conjunct2, THEN conjunct2,
      THEN conjunct2, THEN conjunct2, THEN mp, OF 7]
  note a8 = get_current_user_auth [of "cookie_request ''tok-ann''" has_name 100 session_db _ _ ann,
      THEN conjunct2, THEN conjunct2, THEN conjunct2, THEN conjunct2, THEN conjunct1, THEN mp,
      OF a5, THEN conjunct2, THEN conjunct2, THEN conjunct2, THEN conjunct2]
  from a1 a2 a3 a4 a5 a6 a7 a8 show ?thesis by (intro conjI)
qed

section \<open>Properties of \<open>create_booking\<close>\<close>

lemma create_booking_full:
  "find (\<lambda>w. walk_id w = wid) (walks d) = Some walk \<Longrightarrow> current_participants d wid \<ge> 10
     \<Longrightarrow> create_booking d new_id now wid current_user =
           (Inl (HTTPException 400 ''This walk has reached the maximum limit of 10 participants''), d)"
  by (simp add: create_booking_def HARD_LIMIT_def)

text \<open>The same check inside a request in flight, whatever ran before it.\<close>

lemma booking_step_full:
  "phase r = CountParticipants \<Longrightarrow> current_participants d (req_walk_id r) \<ge> 10
     \<Longrightarrow> booking_step d r =
           (d, r\<lparr>phase := Finished (Inl (HTTPException 400
                  ''This walk has reached the maximum limit of 10 participants''))\<rparr>)"
  by (simp add: booking_step_def HARD_LIMIT_def)

text \<open>One await of a request in each phase.\<close>

lemma step_no_walk:
  "phase r = FindWalk \<Longrightarrow> find (\<lambda>w. walk_id w = req_walk_id r) (walks d) = None
     \<Longrightarrow> booking_step d r = (d, r\<lparr>phase := Finished (Inl (HTTPException 404 ''Walk not found''))\<rparr>)"
  by (simp add: booking_step_def)

lemma step_walk:
  "phase r = FindWalk \<Longrightarrow> find (\<lambda>w. walk_id w = req_walk_id r) (walks d) = Some walk
     \<Longrightarrow> booking_step d r = (d, r\<lparr>phase := CountParticipants\<rparr>)"
  by (simp add: booking_step_def)

lemma step_count:
  "phase r = CountParticipants \<Longrightarrow> current_participants d (req_walk_id r) < 10
     \<Longrightarrow> booking_step d r = (d, r\<lparr>phase := FindExisting\<rparr>)"
  by (simp add: booking_step_def HARD_LIMIT_def)

lemma step_existing:
  "phase r = FindExisting
     \<Longrightarrow> find (\<lambda>b. b_walk_id b = req_walk_id r \<and> b_user_id b = user_id (req_user r)
                     \<and> b_status b = ''active'') (bookings d) = Some existing
     \<Longrightarrow> booking_step d r =
           (d, r\<lparr>phase := Finished (Inl (HTTPException 400 ''Already booked this walk''))\<rparr>)"
  by (simp add: booking_step_def)

lemma step_free:
  "phase r = FindExisting
     \<Longrightarrow> find (\<lambda>b. b_walk_id b = req_walk_id r \<and> b_user_id b = user_id (req_user r)
                     \<and> b_status b = ''active'') (bookings d) = None
     \<Longrightarrow> booking_step d r = (d, r\<lparr>phase := InsertBooking\<rparr>)"
  by (simp add: booking_step_def)

lemma step_insert:
  "phase r = InsertBooking
     \<Longrightarrow> booking_step d r =
           (d\<lparr>bookings := bookings d @ [new_booking r]\<rparr>, r\<lparr>phase := Finished (Inr (new_booking r))\<rparr>)"
  by (simp add: booking_step_def)

lemma step_finished:
  "phase r = Finished result \<Longrightarrow> booking_step d r = (d, r)"
  by (simp add: booking_step_def)

lemma new_booking_phase: "new_booking (r\<lparr>phase := p\<rparr>) = new_booking r"
  by (simp add: new_booking_def)

lemma serve_first: "serve d (a # rs) (0 # schedule) =
    serve (fst (booking_step d a)) (snd (booking_step d a) # rs) schedule"
  by simp

lemma serve_second: "serve d [a, b] (1 # schedule) =
    serve (fst (booking_step d b)) [a, snd (booking_step d b)] schedule"
  by simp

text \<open>A request served alone, await after await, is the handler run in one go.\<close>

lemma serve_alone:
  assumes p: "phase r = FindWalk"
  shows "serve d [r] [0, 0, 0, 0] =
     (snd (create_booking d (req_booking_id r) (req_now r) (req_walk_id r) (req_user r)),
      [r\<lparr>phase := Finished (fst (create_booking d (req_booking_id r) (req_now r) (req_walk_id r)
                                   (req_user r)))\<rparr>])"
proof (cases "find (\<lambda>w. walk_id w = req_walk_id r) (walks d)")
  case None
  let ?r1 = "r\<lparr>phase := Finished (Inl (HTTPException 404 ''Walk not found''))\<rparr>"
  have 1: "booking_step d r = (d, ?r1)" by (rule step_no_walk [OF p None])
  have 2: "booking_step d ?r1 = (d, ?r1)" by (rule step_finished) simp
  have c: "create_booking d (req_booking_id r) (req_now r) (req_walk_id r) (req_user r)
             = (Inl (HTTPException 404 ''Walk not found''), d)"
    by (simp add: create_booking_def None)
  show ?thesis unfolding c by (simp only: serve_first 1 2 fst_conv snd_conv serve.simps(1))
next
  case (Some walk)
  let ?r1 = "r\<lparr>phase := CountParticipants\<rparr>"
  have 1: "booking_step d r = (d, ?r1)" by (rule step_walk [OF p Some])
  show ?thesis
  proof (cases "current_participants d (req_walk_id r) \<ge> 10")
    case True
    let ?r2 = "r\<lparr>phase := Finished (Inl (HTTPException 400
                  ''This walk has reached the maximum limit of 10 participants''))\<rparr>"
    have 2: "booking_step d ?r1 = (d, ?r2)"
      using booking_step_full [of ?r1 d] True by simp
    have 3: "booking_step d ?r2 = (d, ?r2)" by (rule step_finished) simp
    have c: "create_booking d (req_booking_id r) (req_now r) (req_walk_id r) (req_user r)
             = (Inl (HTTPException 400
                  ''This walk has reached the maximum limit of 10 participants''), d)"
      by (rule create_booking_full [OF Some True])
    show ?thesis unfolding c by (simp only: serve_first 1 2 3 fst_conv snd_conv serve.simps(1))
  next
    case False
    let ?r2 = "r\<lparr>phase := FindExisting\<rparr>"
    have 2: "booking_step d ?r1 = (d, ?r2)"
      using step_count [of ?r1 d] False by simp
    show ?thesis
    proof (cases "find (\<lambda>b. b_walk_id b = req_walk_id r \<and> b_user_id b = user_id (req_user r)
                     \<and> b_status b = ''active'') (bookings d)")
      case (Some existing)
      let ?r3 = "r\<lparr>phase := Finished (Inl (HTTPException 400 ''Already booked this walk''))\<rparr>"
      have 3: "booking_step d ?r2 = (d, ?r3)"
        using step_existing [of ?r2 d existing] Some by simp
      have 4: "booking_step d ?r3 = (d, ?r3)" by (rule step_finished) simp
      have c: "create_booking d (req_booking_id r) (req_now r) (req_walk_id r) (req_user r)
             = (Inl (HTTPException 400 ''Already booked this walk''), d)"
        using False by (simp add: create_booking_def \<open>find (\<lambda>w. walk_id w = req_walk_id r) (walks d) = Some walk\<close>
              Some HARD_LIMIT_def)
      show ?thesis unfolding c by (simp only: serve_first 1 2 3 4 fst_conv snd_conv serve.simps(1))
    next
      case None
      let ?r3 = "r\<lparr>phase := InsertBooking\<rparr>"
      let ?r4 = "r\<lparr>phase := Finished (Inr (new_booking r))\<rparr>"
      have 3: "booking_step d ?r2 = (d, ?r3)"
        using step_free [of ?r2 d] None by simp
      have 4: "booking_step d ?r3 = (d\<lparr>bookings := bookings d @ [new_booking r]\<rparr>, ?r4)"
        using step_insert [of ?r3 d] by (simp add: new_booking_phase)
      have c: "create_booking d (req_booking_id r) (req_now r) (req_walk_id r) (req_user r)
             = (Inr (new_booking r), d\<lparr>bookings := bookings d @ [new_booking r]\<rparr>)"
        using False by (simp add: create_booking_def \<open>find (\<lambda>w. walk_id w = req_walk_id r) (walks d) = Some walk\<close>
              None HARD_LIMIT_def new_booking_def Let_def)
      show ?thesis unfolding c by (simp only: serve_first 1 2 3 4 fst_conv snd_conv serve.simps(1))
    qed
  qed
qed

lemma nine_db_walk: "find (\<lambda>w. walk_id w = ''w1'') (walks nine_db) = Some park_walk"
  by (simp add: nine_db_def empty_db_def park_walk_def)

lemma nine_db_count: "current_participants nine_db ''w1'' = 9"
  by (simp add: current_participants_def nine_db_def empty_db_def seat_of_def seat_def)

lemma nine_db_free:
  "find (\<lambda>b. b_walk_id b = ''w1'' \<and> b_user_id b = ''u1'' \<and> b_status b = ''active'') (bookings nine_db)
     = None"
  "find (\<lambda>b. b_walk_id b = ''w1'' \<and> b_user_id b = ''u3'' \<and> b_status b = ''active'') (bookings nine_db)
     = None"
  by (simp_all add: nine_db_def empty_db_def seat_of_def seat_def)

lemma request_of_fields:
  "phase (request_of bid u) = FindWalk" "req_walk_id (request_of bid u) = ''w1''"
  "req_user (request_of bid u) = u" "user_id ann = ''u1''" "user_id carol = ''u3''"
  by (simp_all add: request_of_def ann_def carol_def)

lemma new_booking_counts:
  "current_participants (d\<lparr>bookings := bookings d @ [new_booking (request_of bid u)]\<rparr>) ''w1''
     = Suc (current_participants d ''w1'')"
  by (simp add: current_participants_def new_booking_def request_of_def)

text \<open>
  Two requests for the walk with nine bookings, served in turns: both count nine, both
  find no booking of their user, both insert.
\<close>

lemma serve_in_turns:
  "serve nine_db [request_of ''b10'' ann, request_of ''b11'' carol] [0, 1, 0, 1, 0, 1, 0, 1] =
     (nine_db\<lparr>bookings := bookings nine_db @
         [new_booking (request_of ''b10'' ann), new_booking (request_of ''b11'' carol)]\<rparr>,
      [(request_of ''b10'' ann)\<lparr>phase := Finished (Inr (new_booking (request_of ''b10'' ann)))\<rparr>,
       (request_of ''b11'' carol)\<lparr>phase := Finished (Inr (new_booking (request_of ''b11'' carol)))\<rparr>])"
proof -
  let ?a = "request_of ''b10'' ann"
  let ?c = "request_of ''b11'' carol"
  let ?d1 = "nine_db\<lparr>bookings := bookings nine_db @ [new_booking ?a]\<rparr>"
  have a1: "booking_step nine_db ?a = (nine_db, ?a\<lparr>phase := CountParticipants\<rparr>)"
    by (rule step_walk [where walk = park_walk]) (simp_all add: request_of_fields nine_db_walk)
  have c1: "booking_step nine_db ?c = (nine_db, ?c\<lparr>phase := CountParticipants\<rparr>)"
    by (rule step_walk [where walk = park_walk]) (simp_all add: request_of_fields nine_db_walk)
  have a2: "booking_step nine_db (?a\<lparr>phase := CountParticipants\<rparr>) = (nine_db, ?a\<lparr>phase := FindExisting\<rparr>)"
    using step_count [of "?a\<lparr>phase := CountParticipants\<rparr>" nine_db]
    by (simp add: request_of_fields nine_db_count)
  have c2: "booking_step nine_db (?c\<lparr>phase := CountParticipants\<rparr>) = (nine_db, ?c\<lparr>phase := FindExisting\<rparr>)"
    using step_count [of "?c\<lparr>phase := CountParticipants\<rparr>" nine_db]
    by (simp add: request_of_fields nine_db_count)
  have a3: "booking_step nine_db (?a\<lparr>phase := FindExisting\<rparr>) = (nine_db, ?a\<lparr>phase := InsertBooking\<rparr>)"
    using step_free [of "?a\<lparr>phase := FindExisting\<rparr>" nine_db]
    by (simp add: request_of_fields nine_db_free)
  have c3: "booking_step nine_db (?c\<lparr>phase := FindExisting\<rparr>) = (nine_db, ?c\<lparr>phase := InsertBooking\<rparr>)"
    using step_free [of "?c\<lparr>phase := FindExisting\<rparr>" nine_db]
    by (simp add: request_of_fields nine_db_free)
  have a4: "booking_step nine_db (?a\<lparr>phase := InsertBooking\<rparr>) =
              (?d1, ?a\<lparr>phase := Finished (Inr (new_booking ?a))\<rparr>)"
    using step_insert [of "?a\<lparr>phase := InsertBooking\<rparr>" nine_db]
    by (simp add: new_booking_phase)
  have c4: "booking_step ?d1 (?c\<lparr>phase := InsertBooking\<rparr>) =
              (?d1\<lparr>bookings := bookings ?d1 @ [new_booking ?c]\<rparr>,
               ?c\<lparr>phase := Finished (Inr (new_booking ?c))\<rparr>)"
    using step_insert [of "?c\<lparr>phase := InsertBooking\<rparr>" ?d1]
    by (simp add: new_booking_phase)
  have "serve nine_db [?a, ?c] [0, 1, 0, 1, 0, 1, 0, 1] =
          (?d1\<lparr>bookings := bookings ?d1 @ [new_booking ?c]\<rparr>,
           [?a\<lparr>phase := Finished (Inr (new_booking ?a))\<rparr>,
            ?c\<lparr>phase := Finished (Inr (new_booking ?c))\<rparr>])"
    by (simp only: serve_first serve_second a1 c1 a2 c2 a3 c3 a4 c4 fst_conv snd_conv serve.simps(1))
  then show ?thesis by simp
qed

text \<open>Served one after the other, the second request is refused.\<close>

lemma serve_one_by_one:
  "map phase (snd (serve nine_db [request_of ''b10'' ann, request_of ''b11'' carol]
                     [0, 0, 0, 0, 1, 1, 1, 1])) =
     [Finished (Inr (new_booking (request_of ''b10'' ann))),
      Finished (Inl (HTTPException 400 ''This walk has reached the maximum limit of 10 participants''))]"
proof -
  let ?a = "request_of ''b10'' ann"
  let ?c = "request_of ''b11'' carol"
  let ?d1 = "nine_db\<lparr>bookings := bookings nine_db @ [new_booking ?a]\<rparr>"
  let ?a4 = "?a\<lparr>phase := Finished (Inr (new_booking ?a))\<rparr>"
  let ?c2 = "?c\<lparr>phase := Finished (Inl (HTTPException 400
                  ''This walk has reached the maximum limit of 10 participants''))\<rparr>"
  have a: "serve nine_db [?a, ?c] [0, 0, 0, 0, 1, 1, 1, 1] = serve ?d1 [?a4, ?c] [1, 1, 1, 1]"
  proof -
    have a1: "booking_step nine_db ?a = (nine_db, ?a\<lparr>phase := CountParticipants\<rparr>)"
      by (rule step_walk [where walk = park_walk]) (simp_all add: request_of_fields nine_db_walk)
    have a2: "booking_step nine_db (?a\<lparr>phase := CountParticipants\<rparr>) = (nine_db, ?a\<lparr>phase := FindExisting\<rparr>)"
      using step_count [of "?a\<lparr>phase := CountParticipants\<rparr>" nine_db]
      by (simp add: request_of_fields nine_db_count)
    have a3: "booking_step nine_db (?a\<lparr>phase := FindExisting\<rparr>) = (nine_db, ?a\<lparr>phase := InsertBooking\<rparr>)"
      using step_free [of "?a\<lparr>phase := FindExisting\<rparr>" nine_db]
      by (simp add: request_of_fields nine_db_free)
    have a4: "booking_step nine_db (?a\<lparr>phase := InsertBooking\<rparr>) = (?d1, ?a4)"
      using step_insert [of "?a\<lparr>phase := InsertBooking\<rparr>" nine_db]
      by (simp add: new_booking_phase)
    show ?thesis by (simp only: serve_first a1 a2 a3 a4 fst_conv snd_conv)
  qed
  have c1: "booking_step ?d1 ?c = (?d1, ?c\<lparr>phase := CountParticipants\<rparr>)"
    by (rule step_walk [where walk = park_walk])
       (simp_all add: request_of_fields nine_db_walk)
  have n: "current_participants ?d1 ''w1'' = 10"
    by (simp only: new_booking_counts nine_db_count, simp?)
  have c2: "booking_step ?d1 (?c\<lparr>phase := CountParticipants\<rparr>) = (?d1, ?c2)"
    using booking_step_full [of "?c\<lparr>phase := CountParticipants\<rparr>" ?d1] n
    by (simp add: request_of_fields)
  have c3: "booking_step ?d1 ?c2 = (?d1, ?c2)" by (rule step_finished) simp
  have "serve ?d1 [?a4, ?c] [1, 1, 1, 1] = (?d1, [?a4, ?c2])"
    by (simp only: serve_second c1 c2 c3 fst_conv snd_conv serve.simps(1))
  with a show ?thesis by simp
qed

text \<open>
  C9. For every stored walk, whatever its \<open>max_participants\<close>, \<open>create_booking\<close> fails
  with HTTP 400 and leaves the store unchanged when the walk already has ten or more
  active bookings. But the walk can exceed ten through the endpoint: the handler awaits
  the store between its count and its insert, and for a walk with nine active bookings
  two requests of two users served in turns both succeed, leaving eleven.
\<close>

theorem create_booking_hard_limit:
  "(find (\<lambda>w. walk_id w = wid) (walks d) = Some walk \<and> current_participants d wid \<ge> 10
      \<longrightarrow> create_booking d new_id now wid current_user =
            (Inl (HTTPException 400 ''This walk has reached the maximum limit of 10 participants''), d))
   \<and> current_participants nine_db ''w1'' = 9
   \<and> map phase (snd (serve nine_db [request_of ''b10'' ann, request_of ''b11'' carol]
                        [0, 1, 0, 1, 0, 1, 0, 1])) =
       [Finished (Inr (new_booking (request_of ''b10'' ann))),
        Finished (Inr (new_booking (request_of ''b11'' carol)))]
   \<and> current_participants (fst (serve nine_db [request_of ''b10'' ann, request_of ''b11'' carol]
                                    [0, 1, 0, 1, 0, 1, 0, 1])) ''w1'' = 11"
proof (intro conjI impI)
  assume "find (\<lambda>w. walk_id w = wid) (walks d) = Some walk \<and> current_participants d wid \<ge> 10"
  then show "create_booking d new_id now wid current_user =
            (Inl (HTTPException 400 ''This walk has reached the maximum limit of 10 participants''), d)"
    by (simp add: create_booking_full)
next
  show "current_participants nine_db ''w1'' = 9" by (rule nine_db_count)
next
  show "map phase (snd (serve nine_db [request_of ''b10'' ann, request_of ''b11'' carol]
                        [0, 1, 0, 1, 0, 1, 0, 1])) =
       [Finished (Inr (new_booking (request_of ''b10'' ann))),
        Finished (Inr (new_booking (request_of ''b11'' carol)))]"
    unfolding serve_in_turns by simp
next
  have "current_participants (nine_db\<lparr>bookings := bookings nine_db @
         [new_booking (request_of ''b10'' ann), new_booking (request_of ''b11'' carol)]\<rparr>) ''w1''
         = current_participants nine_db ''w1'' + 2"
    by (simp add: current_participants_def new_booking_def request_of_def)
  then show "current_participants (fst (serve nine_db [request_of ''b10'' ann, request_of ''b11'' carol]
                                    [0, 1, 0, 1, 0, 1, 0, 1])) ''w1'' = 11"
    unfolding serve_in_turns by (simp add: nine_db_count)
qed

theorem create_booking_hard_limit_witness:
  "max_participants park_walk = 25
   \<and> current_participants full_db ''w1'' = 10
   \<and> create_booking full_db ''b10'' 7 ''w1'' ann =
       (Inl (HTTPException 400 ''This walk has reached the maximum limit of 10 participants''), full_db)"
proof -
  have 1: "find (\<lambda>w. walk_id w = ''w1'') (walks full_db) = Some park_walk"
    by (simp add: full_db_def empty_db_def park_walk_def)
  have 2: "current_participants full_db ''w1'' = 10"
    by (simp add: current_participants_def full_db_def empty_db_def seat_def)
  have 3: "find (\<lambda>w. walk_id w = ''w1'') (walks full_db) = Some park_walk
           \<and> current_participants full_db ''w1'' \<ge> 10"
    using 1 2 by simp
  have 4: "max_participants park_walk = 25" by (simp add: park_walk_def)
  note t = create_booking_hard_limit [of "''w1''" full_db park_walk "''b10''" 7 ann,
      THEN conjunct1, THEN mp, OF 3]
  from 4 2 t show ?thesis by (intro conjI)
qed

section \<open>Properties of the retention job\<close>

lemma set_delete_one: "set (delete_one P xs) \<subseteq> set xs"
  by (induction xs) auto

lemma spaced_snoc:
  "spaced (rs @ [r]) \<longleftrightarrow>
     spaced rs \<and> (\<forall>r' \<in> set rs. n_user_id r' = n_user_id r \<longrightarrow> 3 * DAY < \<bar>n_sent_at r' - n_sent_at r\<bar>)"
proof (induction rs)
  case Nil
  show ?case by simp
next
  case (Cons a rs)
  have "\<bar>n_sent_at r - n_sent_at a\<bar> = \<bar>n_sent_at a - n_sent_at r\<bar>" by (rule abs_minus_commute)
  then show ?case using Cons by auto
qed

lemma find_token_None: "find (\<lambda>t. t_user_id t = uid) (push_tokens d) = None \<longleftrightarrow> \<not> has_token_document d uid"
  by (auto simp: find_None_iff has_token_document_def)

lemma find_recent_None:
  "find (\<lambda>n. n_user_id n = uid \<and> n_sent_at n \<ge> t - 3 * DAY) (retention_notifications d) = None
     \<longleftrightarrow> \<not> recently_nudged d uid t"
  by (auto simp: find_None_iff recently_nudged_def)

text \<open>The three ways in which a call publishes nothing.\<close>

lemma srn_no_token:
  "\<not> has_token_document d (user_id u) \<Longrightarrow> send_retention_notification e u d = (d, None)"
  by (simp add: send_retention_notification_def find_token_None)

lemma srn_recent:
  "recently_nudged d (user_id u) (check_time e) \<Longrightarrow> send_retention_notification e u d = (d, None)"
  by (simp add: send_retention_notification_def find_recent_None Let_def)

lemma srn_published:
  assumes "snd (send_retention_notification e u d) \<noteq> None"
  shows "has_token_document d (user_id u) \<and> \<not> recently_nudged d (user_id u) (check_time e)"
proof (intro conjI notI)
  show "has_token_document d (user_id u)"
  proof (rule ccontr)
    assume "\<not> has_token_document d (user_id u)"
    from srn_no_token [OF this, of e] assms show False by simp
  qed
next
  assume "recently_nudged d (user_id u) (check_time e)"
  from srn_recent [OF this] assms show False by simp
qed

lemma srn_frame:
  "users (fst (send_retention_notification e u d)) = users d
   \<and> set (push_tokens (fst (send_retention_notification e u d))) \<subseteq> set (push_tokens d)
   \<and> retention_notifications (fst (send_retention_notification e u d)) =
       retention_notifications d @
         (if snd (send_retention_notification e u d) = Some Delivered
          then [\<lparr>n_user_id = user_id u, n_sent_at = sent_time e\<rparr>] else [])"
  using set_delete_one [of "\<lambda>t. t_user_id t = user_id u" "push_tokens d"]
  by (cases "gateway e") (simp_all add: send_retention_notification_def Let_def)

lemma srn_spaced:
  assumes "spaced (retention_notifications d)" "check_time e \<le> sent_time e"
  shows "spaced (retention_notifications (fst (send_retention_notification e u d)))"
proof (cases "snd (send_retention_notification e u d) = Some Delivered")
  case False
  with srn_frame [of e u d] assms(1) show ?thesis by simp
next
  case True
  then have "\<not> recently_nudged d (user_id u) (check_time e)"
    using srn_published [of e u d] by simp
  then have far: "\<forall>r' \<in> set (retention_notifications d).
      n_user_id r' = user_id u \<longrightarrow> n_sent_at r' < check_time e - 3 * DAY"
    by (auto simp: recently_nudged_def)
  have "\<forall>r' \<in> set (retention_notifications d).
      n_user_id r' = user_id u \<longrightarrow> 3 * DAY < \<bar>n_sent_at r' - sent_time e\<bar>"
  proof (intro ballI impI)
    fix r'
    assume "r' \<in> set (retention_notifications d)" "n_user_id r' = user_id u"
    with far have "n_sent_at r' < check_time e - 3 * DAY" by simp
    with assms(2) show "3 * DAY < \<bar>n_sent_at r' - sent_time e\<bar>" by simp
  qed
  with True srn_frame [of e u d] assms(1) show ?thesis by (simp add: spaced_snoc)
qed

lemma has_token_document_mono:
  "set (push_tokens d1) \<subseteq> set (push_tokens d) \<Longrightarrow> has_token_document d1 uid \<Longrightarrow> has_token_document d uid"
  by (auto simp: has_token_document_def)

lemma recently_nudged_mono:
  "retention_notifications d1 = retention_notifications d @ new \<Longrightarrow>
     recently_nudged d uid t \<Longrightarrow> recently_nudged d1 uid t"
  by (auto simp: recently_nudged_def)

lemma retention_loop_Cons:
  "retention_loop env k (u # us) d =
     (fst (retention_loop env (Suc k) us (fst (send_retention_notification (env k) u d))),
      snd (send_retention_notification (env k) u d)
        # snd (retention_loop env (Suc k) us (fst (send_retention_notification (env k) u d))))"
  by (simp add: split_def Let_def)

text \<open>What the loop does, from any store and any position of the clock.\<close>

lemma retention_loop_outcome:
  "length (snd (retention_loop env k us d)) = length us
   \<and> users (fst (retention_loop env k us d)) = users d
   \<and> set (push_tokens (fst (retention_loop env k us d))) \<subseteq> set (push_tokens d)
   \<and> (\<exists>new. retention_notifications (fst (retention_loop env k us d)) = retention_notifications d @ new
          \<and> map n_user_id new =
              map (user_id \<circ> fst)
                (filter (\<lambda>p. snd p = Some Delivered) (zip us (snd (retention_loop env k us d)))))
   \<and> (\<forall>i < length us.
         \<not> has_token_document d (user_id (us ! i))
           \<or> recently_nudged d (user_id (us ! i)) (check_time (env (k + i)))
         \<longrightarrow> snd (retention_loop env k us d) ! i = None)
   \<and> (spaced (retention_notifications d) \<and> (\<forall>j. check_time (env j) \<le> sent_time (env j))
        \<longrightarrow> spaced (retention_notifications (fst (retention_loop env k us d))))"
proof (induction us arbitrary: d k)
  case Nil
  show ?case by simp
next
  case (Cons u us)
  let ?s = "send_retention_notification (env k) u d"
  let ?d1 = "fst ?s"
  let ?r = "snd ?s"
  let ?l = "retention_loop env (Suc k) us ?d1"
  note ih = Cons.IH [of "Suc k" ?d1]
  note ih1 = ih [THEN conjunct1]
  note ih2 = ih [THEN conjunct2, THEN conjunct1]
  note ih3 = ih [THEN conjunct2, THEN conjunct2, THEN conjunct1]
  note ih4 = ih [THEN conjunct2, THEN conjunct2, THEN conjunct2, THEN conjunct1]
  note ih5 = ih [THEN conjunct2, THEN conjunct2, THEN conjunct2, THEN conjunct2, THEN conjunct1]
  note ih6 = ih [THEN conjunct2, THEN conjunct2, THEN conjunct2, THEN conjunct2, THEN conjunct2]
  note f = srn_frame [of "env k" u d]
  note f1 = f [THEN conjunct1]
  note f2 = f [THEN conjunct2, THEN conjunct1]
  note f3 = f [THEN conjunct2, THEN conjunct2]
  have c1: "length (snd (retention_loop env k (u # us) d)) = length (u # us)"
    unfolding retention_loop_Cons using ih1 by simp
  have c2: "users (fst (retention_loop env k (u # us) d)) = users d"
    unfolding retention_loop_Cons using ih2 f1 by simp
  have c3: "set (push_tokens (fst (retention_loop env k (u # us) d))) \<subseteq> set (push_tokens d)"
    unfolding retention_loop_Cons using ih3 f2 by simp
  from ih4 obtain new where
    new: "retention_notifications (fst ?l) = retention_notifications ?d1 @ new"
      "map n_user_id new = map (user_id \<circ> fst) (filter (\<lambda>p. snd p = Some Delivered) (zip us (snd ?l)))"
    by (elim exE conjE)
  let ?first = "if ?r = Some Delivered then [\<lparr>n_user_id = user_id u, n_sent_at = sent_time (env k)\<rparr>] else []"
  have n1: "retention_notifications (fst (retention_loop env k (u # us) d))
              = retention_notifications d @ (?first @ new)"
    unfolding retention_loop_Cons using new(1) f3 by simp
  have n2: "map n_user_id (?first @ new) =
              map (user_id \<circ> fst)
                (filter (\<lambda>p. snd p = Some Delivered)
                   (zip (u # us) (snd (retention_loop env k (u # us) d))))"
    unfolding retention_loop_Cons using new(2) by simp
  have c4: "\<exists>new. retention_notifications (fst (retention_loop env k (u # us) d)) = retention_notifications d @ new
          \<and> map n_user_id new =
              map (user_id \<circ> fst)
                (filter (\<lambda>p. snd p = Some Delivered)
                   (zip (u # us) (snd (retention_loop env k (u # us) d))))"
    using n1 n2 by (intro exI [of _ "?first @ new"] conjI)
  have c5: "\<forall>i < length (u # us).
         \<not> has_token_document d (user_id ((u # us) ! i))
           \<or> recently_nudged d (user_id ((u # us) ! i)) (check_time (env (k + i)))
         \<longrightarrow> snd (retention_loop env k (u # us) d) ! i = None"
  proof (intro allI impI)
    fix i
    assume i: "i < length (u # us)"
      and skip: "\<not> has_token_document d (user_id ((u # us) ! i))
           \<or> recently_nudged d (user_id ((u # us) ! i)) (check_time (env (k + i)))"
    show "snd (retention_loop env k (u # us) d) ! i = None"
    proof (cases i)
      case 0
      with skip have "\<not> has_token_document d (user_id u) \<or> recently_nudged d (user_id u) (check_time (env k))"
        by simp
      then have "?s = (d, None)"
        using srn_no_token [of d u "env k"] srn_recent [of d u "env k"] by (elim disjE) simp_all
      with 0 show ?thesis unfolding retention_loop_Cons by simp
    next
      case (Suc j)
      with i have j: "j < length us" by simp
      from skip Suc have "\<not> has_token_document d (user_id (us ! j))
           \<or> recently_nudged d (user_id (us ! j)) (check_time (env (Suc k + j)))"
        by simp
      then have "\<not> has_token_document ?d1 (user_id (us ! j))
           \<or> recently_nudged ?d1 (user_id (us ! j)) (check_time (env (Suc k + j)))"
        using has_token_document_mono [OF f2] recently_nudged_mono [OF f3] by (elim disjE) auto
      with ih5 j have "snd ?l ! j = None" by simp
      with Suc show ?thesis unfolding retention_loop_Cons by simp
    qed
  qed
  have c6: "spaced (retention_notifications d) \<and> (\<forall>j. check_time (env j) \<le> sent_time (env j))
        \<longrightarrow> spaced (retention_notifications (fst (retention_loop env k (u # us) d)))"
  proof
    assume a: "spaced (retention_notifications d) \<and> (\<forall>j. check_time (env j) \<le> sent_time (env j))"
    then have "spaced (retention_notifications ?d1)"
      using srn_spaced [of d "env k" u] by simp
    with a ih6 show "spaced (retention_notifications (fst (retention_loop env k (u # us) d)))"
      unfolding retention_loop_Cons by simp
  qed
  from c1 c2 c3 c4 c5 c6 show ?case by (intro conjI)
qed

lemma inactive_users_sound:
  "length (inactive_users now d) \<le> 100
   \<and> (\<forall>u \<in> set (inactive_users now d).
         u \<in> set (users d)
         \<and> (lastLoginAt u = None \<or> (\<exists>t. lastLoginAt u = Some t \<and> t < now - 3 * DAY))
         \<and> notifications_enabled u \<noteq> Some False)"
proof (intro conjI ballI)
  show "length (inactive_users now d) \<le> 100"
    by (simp add: inactive_users_def)
next
  fix u
  assume "u \<in> set (inactive_users now d)"
  then have "u \<in> set (filter (inactive_query (now - 3 * DAY)) (users d))"
    unfolding inactive_users_def by (rule in_set_takeD)
  then have m: "u \<in> set (users d)" and q: "inactive_query (now - 3 * DAY) u"
    by simp_all
  show "u \<in> set (users d)" by (rule m)
  show "lastLoginAt u = None \<or> (\<exists>t. lastLoginAt u = Some t \<and> t < now - 3 * DAY)"
    using q by (cases "lastLoginAt u") (simp_all add: inactive_query_def)
  show "notifications_enabled u \<noteq> Some False"
    using q by (simp add: inactive_query_def)
qed

lemma retention_run:
  assumes "check_and_send_retention_notifications env now d = (d', log)"
  shows "length (inactive_users now d) \<le> 100
   \<and> (\<forall>u \<in> set (inactive_users now d).
         u \<in> set (users d)
         \<and> (lastLoginAt u = None \<or> (\<exists>t. lastLoginAt u = Some t \<and> t < now - 3 * DAY))
         \<and> notifications_enabled u \<noteq> Some False)
   \<and> length log = length (inactive_users now d)
   \<and> (\<forall>k < length log.
         \<not> has_token_document d (user_id (inactive_users now d ! k))
           \<or> recently_nudged d (user_id (inactive_users now d ! k)) (check_time (env k))
         \<longrightarrow> log ! k = None)
   \<and> (\<exists>new. retention_notifications d' = retention_notifications d @ new
          \<and> map n_user_id new =
              map (user_id \<circ> fst)
                (filter (\<lambda>p. snd p = Some Delivered) (zip (inactive_users now d) log)))
   \<and> (spaced (retention_notifications d) \<and> (\<forall>k. check_time (env k) \<le> sent_time (env k))
        \<longrightarrow> spaced (retention_notifications d'))"
proof -
  let ?us = "inactive_users now d"
  from assms have r: "fst (retention_loop env 0 ?us d) = d'" "snd (retention_loop env 0 ?us d) = log"
    by (simp_all add: check_and_send_retention_notifications_def)
  note o = retention_loop_outcome [of env 0 ?us d, unfolded r]
  note o1 = o [THEN conjunct1]
  note o4 = o [THEN conjunct2, THEN conjunct2, THEN conjunct2, THEN conjunct1]
  note o5 = o [THEN conjunct2, THEN conjunct2, THEN conjunct2, THEN conjunct2, THEN conjunct1]
  note o6 = o [THEN conjunct2, THEN conjunct2, THEN conjunct2, THEN conjunct2, THEN conjunct2]
  note i = inactive_users_sound [of now d]
  have o5': "\<forall>k < length log.
         \<not> has_token_document d (user_id (?us ! k))
           \<or> recently_nudged d (user_id (?us ! k)) (check_time (env k))
         \<longrightarrow> log ! k = None"
    using o5 unfolding o1 by simp
  from i [THEN conjunct1] i [THEN conjunct2] o1 o5' o4 o6 show ?thesis
    by (intro conjI)
qed

text \<open>
  C4. The specification has the retention job skip a user with no registered push token.
  Ann never logged in and has notifications on, so the job considers her; her only push
  token was unregistered (it is stored with \<open>active\<close> false), and she has no retention
  record. The job publishes a nudge to that token and records it.
\<close>

theorem retention_nudges_unregistered:
  "\<not> has_registered_token logged_out_db ''u1''
   \<and> inactive_users (10 * DAY) logged_out_db = [ann]
   \<and> user_id ann = ''u1''
   \<and> check_and_send_retention_notifications steady_env (10 * DAY) logged_out_db
       = (nudged_db, [Some Delivered])"
proof -
  have 1: "\<not> has_registered_token logged_out_db ''u1''"
    by (simp add: has_registered_token_def logged_out_db_def empty_db_def)
  have 2: "inactive_users (10 * DAY) logged_out_db = [ann]"
    by (simp add: inactive_users_def inactive_query_def logged_out_db_def empty_db_def ann_def)
  have 3: "user_id ann = ''u1''" by (simp add: ann_def)
  have 4: "send_retention_notification (steady_env 0) ann logged_out_db = (nudged_db, Some Delivered)"
    by (simp add: send_retention_notification_def logged_out_db_def nudged_db_def empty_db_def
          ann_def steady_env_def truthy_def Let_def codes_def py_isspace_def)
  have 5: "check_and_send_retention_notifications steady_env (10 * DAY) logged_out_db
       = (nudged_db, [Some Delivered])"
    unfolding check_and_send_retention_notifications_def 2 by (simp add: 4)
  from 1 2 3 5 show ?thesis by (intro conjI)
qed

end
